theory Spec2Isabelle
  imports Complex_Main "HOL-Library.Sublist"
begin

section \<open>Python strings\<close>

text \<open>
  A Python \<open>str\<close> is a sequence of Unicode code points. Wherever the source counts
  characters, slices, strips white space or reads digits (the text chunking, the prompts
  of the inference tasks, the HTML of the reference extractor), a \<open>str\<close> is a
  \<open>ustring\<close>, the list of its code points as integers, and an ASCII literal \<open>''abc''\<close> of the
  source is written \<open>ustr ''abc''\<close>. Where strings are only compared, concatenated and
  searched for substrings, a \<open>str\<close> is the \<open>string\<close> of its UTF-8 bytes, which keeps
  equality, concatenation and substring search as they are on code points.
\<close>

type_synonym ustring = "int list"

definition ustr :: "string \<Rightarrow> ustring" where
  "ustr s = map of_char s"

datatype py_error =
  AssertionError | ValueError | AttributeError | TypeError | KeyError | OverflowError
  | JSONDecodeError | Exception string

text \<open>
  The result of running a loop against a finite trace of what its environment answers:
  the value returned, the exception raised, or \<open>Pending\<close> when the trace is used up
  and the loop is about to ask again.
\<close>

datatype 'a run = Done 'a | Fails py_error | Pending

definition newline :: int where
  "newline = 10"

text \<open>\<open>s.split(c)\<close> for a one-character separator: never the empty list.\<close>

fun split_on :: "'a \<Rightarrow> 'a list \<Rightarrow> 'a list list" where
  "split_on c [] = [[]]"
| "split_on c (x # xs) =
     (if x = c then [] # split_on c xs
      else (x # hd (split_on c xs)) # tl (split_on c xs))"

text \<open>\<open>sep.join(xs)\<close>.\<close>

fun join :: "'a list \<Rightarrow> 'a list list \<Rightarrow> 'a list" where
  "join sep [] = []"
| "join sep [x] = x"
| "join sep (x # y # ys) = x @ sep @ join sep (y # ys)"

definition startswith :: "'a list \<Rightarrow> 'a list \<Rightarrow> bool" where
  "startswith s p = prefix p s"

text \<open>\<open>sub in s\<close> on strings.\<close>

definition contains :: "'a list \<Rightarrow> 'a list \<Rightarrow> bool" where
  "contains s sub = sublist sub s"

text \<open>
  \<open>s.find(sub)\<close>: the index of the first occurrence, or \<open>-1\<close>.
\<close>

fun find_from :: "'a list \<Rightarrow> 'a list \<Rightarrow> int \<Rightarrow> int" where
  "find_from sub [] i = (if sub = [] then i else -1)"
| "find_from sub (c # cs) i = (if prefix sub (c # cs) then i else find_from sub cs (i + 1))"

definition find :: "'a list \<Rightarrow> 'a list \<Rightarrow> int" where
  "find s sub = find_from sub s 0"

text \<open>
  The code points \<open>str.isspace\<close> accepts, which are those \<open>str.strip()\<close> removes:
  the ASCII white space with the four separators \<open>0x1C\<close> to \<open>0x1F\<close>, and the
  Unicode white space from \<open>U+0085\<close> to the ideographic space \<open>U+3000\<close>.
\<close>

definition whitespace :: "int list" where
  "whitespace =
     [0x09, 0x0A, 0x0B, 0x0C, 0x0D, 0x1C, 0x1D, 0x1E, 0x1F, 0x20, 0x85, 0xA0, 0x1680,
      0x2000, 0x2001, 0x2002, 0x2003, 0x2004, 0x2005, 0x2006, 0x2007, 0x2008, 0x2009, 0x200A,
      0x2028, 0x2029, 0x202F, 0x205F, 0x3000]"

definition isspace :: "int \<Rightarrow> bool" where
  "isspace c = (c \<in> set whitespace)"

definition strip :: "ustring \<Rightarrow> ustring" where
  "strip s = rev (dropWhile isspace (rev (dropWhile isspace s)))"

text \<open>
  \<open>s.lower()\<close>, on the UTF-8 bytes of \<open>s\<close>: the ASCII letters are lowered and the
  other bytes kept. It is used only to compare with, or to search for, the fixed words of
  the source. The characters outside ASCII whose lower case has an ASCII letter are the
  Kelvin sign, which gives \<open>k\<close>, and the dotted capital I, which gives \<open>i\<close> followed
  by a combining dot; no word of the source has a \<open>k\<close> or ends in \<open>i\<close>, so these
  comparisons and searches give what they give in Python.
\<close>

definition lower_char :: "char \<Rightarrow> char" where
  "lower_char c =
     (if (65::nat) \<le> of_char c \<and> (of_char c :: nat) \<le> 90
      then char_of ((of_char c :: nat) + 32) else c)"

definition lower :: "string \<Rightarrow> string" where
  "lower s = map lower_char s"

text \<open>\<open>xs[a:b]\<close> for indices that are not negative.\<close>

definition slice :: "'a list \<Rightarrow> nat \<Rightarrow> nat \<Rightarrow> 'a list" where
  "slice xs a b = take (b - a) (drop a xs)"


section \<open>utils.py: header-aware text chunking\<close>

definition BLOCK_SIZE :: int where
  "BLOCK_SIZE = 16384"

definition is_header :: "ustring \<Rightarrow> bool" where
  "is_header line =
     (startswith line (ustr ''#'') \<and>
      (startswith line (ustr ''# '') \<or> startswith line (ustr ''## '')
       \<or> startswith line (ustr ''### '')))"

definition header_indices :: "ustring list \<Rightarrow> nat list" where
  "header_indices lines = filter (\<lambda>i. is_header (lines ! i)) [0..<length lines]"

text \<open>
  The branch without headings: the loop state is
  \<open>(blocks, current_block, current_size)\<close>.
\<close>

definition plain_step :: "int \<Rightarrow> ustring list \<times> ustring list \<times> int \<Rightarrow> ustring
    \<Rightarrow> ustring list \<times> ustring list \<times> int" where
  "plain_step max_size st line =
     (case st of (blocks, current_block, current_size) \<Rightarrow>
        let line_size = int (length line) + 1 in
        if current_size + line_size > max_size \<and> current_block \<noteq> []
        then (blocks @ [join [newline] current_block], [line], line_size)
        else (blocks, current_block @ [line], current_size + line_size))"

definition split_plain :: "ustring \<Rightarrow> ustring list \<Rightarrow> int \<Rightarrow> py_error + ustring list" where
  "split_plain text lines max_size =
     (case foldl (plain_step max_size) ([], [], 0) lines of
        (blocks, current_block, current_size) \<Rightarrow>
          let blocks' = (if current_block \<noteq> [] then blocks @ [join [newline] current_block]
                         else blocks)
          in if join [newline] blocks' = text then Inr blocks' else Inl AssertionError)"

text \<open>
  The branch with headings: the loop over \<open>range(1, len(all_indices))\<close> with the
  state \<open>(blocks, current_start)\<close>.
\<close>

definition header_step :: "ustring list \<Rightarrow> nat list \<Rightarrow> int \<Rightarrow> ustring list \<times> nat \<Rightarrow> nat
    \<Rightarrow> ustring list \<times> nat" where
  "header_step lines all_indices max_size st i =
     (case st of (blocks, current_start) \<Rightarrow>
        let current_end = all_indices ! i;
            candidate_lines = slice lines current_start current_end;
            candidate_text = join [newline] candidate_lines
        in if int (length candidate_text) > max_size then
             (if current_start = all_indices ! (i - 1)
              then (blocks @ [candidate_text], current_end)
              else
                let prev_lines = slice lines current_start (all_indices ! (i - 1));
                    blocks1 = (if prev_lines \<noteq> [] then blocks @ [join [newline] prev_lines]
                               else blocks);
                    current_start1 = all_indices ! (i - 1);
                    current_lines = slice lines current_start1 current_end;
                    current_text = join [newline] current_lines
                in (blocks1 @ [current_text], current_end))
           else
             (if i = length all_indices - 1
              then ((if candidate_lines \<noteq> [] then blocks @ [candidate_text] else blocks),
                    current_end)
              else (blocks, current_start)))"

definition split_headers :: "ustring \<Rightarrow> ustring list \<Rightarrow> nat list \<Rightarrow> int
    \<Rightarrow> py_error + ustring list" where
  "split_headers text lines hs max_size =
     (let all_indices = [0] @ hs @ [length lines] in
      case foldl (header_step lines all_indices max_size) ([], 0) [1..<length all_indices] of
        (blocks, current_start) \<Rightarrow>
          let remaining_lines = drop current_start lines;
              blocks1 = (if current_start < length lines \<and> remaining_lines \<noteq> []
                         then blocks @ [join [newline] remaining_lines] else blocks);
              blocks2 = filter (\<lambda>block. strip block \<noteq> []) blocks1
          in if join [newline] blocks2 = text then Inr blocks2 else Inl AssertionError)"

definition split_text_by_headers :: "ustring \<Rightarrow> int \<Rightarrow> py_error + ustring list" where
  "split_text_by_headers text max_size =
     (let lines = split_on newline text;
          hs = header_indices lines
      in if hs = [] then split_plain text lines max_size
         else split_headers text lines hs max_size)"


section \<open>utils.py: the web-search client\<close>

text \<open>
  One pass through the \<open>try\<close> block of \<open>WebLLMClient.generate\<close>: either
  \<open>requests.post\<close> raises (with \<open>str(e)\<close>), or it returns a response with its
  \<open>status_code\<close>, its \<open>text\<close> and, for status 200, what
  \<open>response.json()\<close> followed by the extraction of \<open>choices[0].message.content\<close>
  gives: \<open>Inr\<close> the content, \<open>Inl\<close> the message of the exception it raises.
\<close>

datatype attempt = PostRaises string | Response nat string "string + string"












section \<open>infer/batch\_infer.py: retry policy\<close>

definition rate_limit_indicators :: "string list" where
  "rate_limit_indicators =
     [''rate limit'', ''rate_limit'', ''ratelimit'',
      ''429'', ''too many requests'', ''quota exceeded'',
      ''throttled'', ''throttling'',
      [CHR 0xE9, CHR 0x99, CHR 0x90, CHR 0xE6, CHR 0xB5, CHR 0x81],
      [CHR 0xE9, CHR 0xA2, CHR 0x91, CHR 0xE7, CHR 0x8E, CHR 0x87, CHR 0xE9, CHR 0x99, CHR 0x90,
       CHR 0xE5, CHR 0x88, CHR 0xB6],
      ''exceed'', ''maximum'', ''limit exceeded'',
      ''retry after'', ''retry-after'',
      [CHR 0xE8, CHR 0xAF, CHR 0xB7, CHR 0xE6, CHR 0xB1, CHR 0x82, CHR 0xE8, CHR 0xBF, CHR 0x87,
       CHR 0xE4, CHR 0xBA, CHR 0x8E, CHR 0xE9, CHR 0xA2, CHR 0x91, CHR 0xE7, CHR 0xB9, CHR 0x81],
      ''concurrent requests'',
      [CHR 0xE8, CHR 0xAF, CHR 0xB7, CHR 0xE7, CHR 0xA8, CHR 0x8D, CHR 0xE5, CHR 0x90, CHR 0x8E,
       CHR 0xE9, CHR 0x87, CHR 0x8D, CHR 0xE8, CHR 0xAF, CHR 0x95]]"

definition is_rate_limit_error :: "string \<Rightarrow> bool" where
  "is_rate_limit_error error_message =
     (let error_lower = lower error_message
      in list_ex (\<lambda>indicator. contains error_lower indicator) rate_limit_indicators)"

text \<open>
  \<open>exponential_backoff\<close>: \<open>2 ** attempt\<close> is an unbounded integer and
  \<open>base_delay\<close> a float, so their product converts the integer to a float, which raises
  \<open>OverflowError\<close> from \<open>2 ** 1024\<close> on. The durations themselves are modelled as
  rationals; \<open>r\<close> is what \<open>random.random()\<close> returns.
\<close>

definition exponential_backoff :: "nat \<Rightarrow> rat \<Rightarrow> rat \<Rightarrow> rat \<Rightarrow> py_error + rat" where
  "exponential_backoff attempt base_delay max_delay r =
     (if attempt \<ge> 1024 then Inl OverflowError
      else let delay = min (base_delay * 2 ^ attempt) max_delay;
               jitter = delay * (1 / 10) * r
           in Inr (delay + jitter))"

text \<open>
  What \<open>model.invoke\<close> does in one attempt: it answers, or it raises with the message
  \<open>str(e)\<close>; the second component of \<open>Throws\<close> is the value \<open>random.random()\<close>
  returns when the delay after this failure is computed.
\<close>

datatype invoke = Responds string | Throws string rat

record infer_result =
  success :: bool
  response :: "string option"
  error :: "string option"
  retry_count :: nat
  retry_delay :: rat
  is_rate_limit :: "bool option"

fun infer_single_with_retry :: "int \<Rightarrow> nat \<Rightarrow> rat \<Rightarrow> invoke list \<Rightarrow> infer_result run" where
  "infer_single_with_retry max_retries attempt total_retry_delay [] = Pending"
| "infer_single_with_retry max_retries attempt total_retry_delay (Responds content # rest) =
     Done \<lparr>success = True, response = Some content, error = None, retry_count = attempt,
           retry_delay = total_retry_delay, is_rate_limit = None\<rparr>"
| "infer_single_with_retry max_retries attempt total_retry_delay (Throws error_msg r # rest) =
     (let is_rl = is_rate_limit_error error_msg;
          should_retry = (is_rl \<or> int attempt < max_retries)
      in if should_retry then
           (case exponential_backoff (attempt + 1 - 1)
                   (if is_rl then 2 else 1) (if is_rl then 120 else 30) r of
              Inl e \<Rightarrow> Fails e
            | Inr delay \<Rightarrow>
                infer_single_with_retry max_retries (attempt + 1) (total_retry_delay + delay) rest)
         else Done \<lparr>success = False, response = None, error = Some error_msg,
                    retry_count = attempt, retry_delay = total_retry_delay,
                    is_rate_limit = Some is_rl\<rparr>)"


section \<open>infer/batch\_infer.py: task construction\<close>

text \<open>
  A line of the existing output file: blank after \<open>strip\<close>, a JSON object with its
  \<open>row_index\<close> and \<open>model_name\<close>, or text that \<open>json.loads\<close> or the two
  subscripts reject.
\<close>

datatype out_line = Blank | Record int string | Malformed py_error

fun load_processed :: "out_line list \<Rightarrow> py_error + (int \<times> string) list" where
  "load_processed [] = Inr []"
| "load_processed (Blank # ls) = load_processed ls"
| "load_processed (Malformed e # ls) = Inl e"
| "load_processed (Record i m # ls) =
     (case load_processed ls of Inl e \<Rightarrow> Inl e | Inr ps \<Rightarrow> Inr ((i, m) # ps))"

text \<open>
  A cell of a table: missing (\<open>pd.isna\<close>) or a value, as \<open>str\<close> shows it. The
  prompt of a row is stripped, so it is a \<open>ustring cell\<close>.
\<close>

datatype 'a cell = NaN | Cell 'a

record 'm task =
  task_row_idx :: int
  task_model_name :: string
  task_prompt :: ustring
  task_original_prompt :: ustring
  task_model :: 'm

datatype file_mode = Append | Overwrite

definition open_mode :: "int \<Rightarrow> file_mode" where
  "open_mode start_idx = (if start_idx > 0 then Append else Overwrite)"

text \<open>
  The tasks of one row. \<open>fill\<close> is the template applied to the row and its stripped
  prompt (the identity on the prompt when no template is given).
\<close>

definition row_tasks :: "('r \<Rightarrow> ustring cell) \<Rightarrow> ('r \<Rightarrow> ustring \<Rightarrow> ustring) \<Rightarrow> (string \<times> 'm) list
    \<Rightarrow> (int \<times> string) list \<Rightarrow> int \<Rightarrow> int \<times> 'r \<Rightarrow> 'm task list" where
  "row_tasks prompt_of fill available_models processed_items start_idx ir =
     (case ir of (idx, row) \<Rightarrow>
        if idx < start_idx then []
        else (case prompt_of row of
                NaN \<Rightarrow> []
              | Cell p \<Rightarrow>
                  if strip p = [] then []
                  else map (\<lambda>(model_name, model).
                              \<lparr>task_row_idx = idx, task_model_name = model_name,
                               task_prompt = fill row (strip p),
                               task_original_prompt = strip p, task_model = model\<rparr>)
                         (filter (\<lambda>(model_name, model). (idx, model_name) \<notin> set processed_items)
                            available_models)))"

text \<open>
  \<open>batch_infer_parallel\<close> up to the list of tasks it submits: \<open>df\<close> is the table
  as \<open>iterrows\<close> walks it, \<open>models\<close> the dictionary of clients (\<open>None\<close> for one
  that failed to build), \<open>output_file\<close> the lines of the output file when it exists.
\<close>

definition batch_infer_tasks :: "('r \<Rightarrow> ustring cell) \<Rightarrow> ('r \<Rightarrow> ustring \<Rightarrow> ustring) \<Rightarrow> (int \<times> 'r) list
    \<Rightarrow> (string \<times> 'm option) list \<Rightarrow> out_line list option \<Rightarrow> int
    \<Rightarrow> py_error + 'm task list" where
  "batch_infer_tasks prompt_of fill df models output_file start_idx =
     (case (case output_file of
              Some ls \<Rightarrow> if start_idx > 0 then load_processed ls else Inr []
            | None \<Rightarrow> Inr []) of
        Inl e \<Rightarrow> Inl e
      | Inr processed_items \<Rightarrow>
          let available_models =
                concat (map (\<lambda>(name, model). case model of None \<Rightarrow> [] | Some m \<Rightarrow> [(name, m)])
                          models)
          in Inr (concat (map (row_tasks prompt_of fill available_models processed_items
                                 start_idx) df)))"


text \<open>Without a template the prompt of a task is the stripped prompt of the row.\<close>

definition no_template :: "'r \<Rightarrow> ustring \<Rightarrow> ustring" where
  "no_template row p = p"

text \<open>The pair that identifies a task, and the pairs of the tasks a run enqueues.\<close>

definition task_key :: "'m task \<Rightarrow> int \<times> string" where
  "task_key t = (task_row_idx t, task_model_name t)"

definition enqueued :: "py_error + 'm task list \<Rightarrow> (int \<times> string) list" where
  "enqueued r = (case r of Inl e \<Rightarrow> [] | Inr tasks \<Rightarrow> map task_key tasks)"

text \<open>
  What happens to the output file after the tasks are built: with no task the function
  returns and the file is left alone; otherwise it is opened, for appending when
  \<open>start_idx > 0\<close> and for writing from the start otherwise.
\<close>

definition opened_as :: "py_error + 'm task list \<Rightarrow> int \<Rightarrow> file_mode option" where
  "opened_as r start_idx =
     (case r of Inl e \<Rightarrow> None
      | Inr tasks \<Rightarrow> if tasks = [] then None else Some (open_mode start_idx))"

section \<open>statement/verify\_no\_citations\_web.py: the vote\<close>

definition zhengque :: string where
  "zhengque = [CHR 0xE6, CHR 0xAD, CHR 0xA3, CHR 0xE7, CHR 0xA1, CHR 0xAE]"

definition cuowu :: string where
  "cuowu = [CHR 0xE9, CHR 0x94, CHR 0x99, CHR 0xE8, CHR 0xAF, CHR 0xAF]"

definition pingju :: string where
  "pingju = [CHR 0xE5, CHR 0xB9, CHR 0xB3, CHR 0xE5, CHR 0xB1, CHR 0x80]"

text \<open>
  A cell of the \<open>decision\<close> column: a \<open>bool\<close>, a \<open>str\<close>, or any other value, of
  which only its truth value \<open>bool(decision)\<close> is used.
\<close>

datatype decision = DBool bool | DStr string | DOther bool

fun boolean_decision :: "decision \<Rightarrow> bool" where
  "boolean_decision (DBool b) = b"
| "boolean_decision (DStr s) = (lower s \<in> set [''true'', zhengque, ''yes'', ''1''])"
| "boolean_decision (DOther b) = b"

record vote =
  true_votes :: nat
  false_votes :: nat
  total_votes :: nat
  final_decision :: string
  confidence :: rat

text \<open>
  The body of the loop over statements, from the list of decisions of one statement.
  The quotients are Python's true division; they are modelled as rationals.
\<close>

definition count_votes :: "decision list \<Rightarrow> vote" where
  "count_votes decisions =
     (let boolean_decisions = map boolean_decision decisions;
          tv = length (filter (\<lambda>b. b) boolean_decisions);
          fv = length boolean_decisions - tv;
          total_valid_votes = length boolean_decisions
      in if fv > tv then
           \<lparr>true_votes = tv, false_votes = fv, total_votes = total_valid_votes,
            final_decision = cuowu,
            confidence = (if total_valid_votes > 0 then of_nat fv / of_nat total_valid_votes
                          else 0)\<rparr>
         else if tv > fv then
           \<lparr>true_votes = tv, false_votes = fv, total_votes = total_valid_votes,
            final_decision = zhengque,
            confidence = (if total_valid_votes > 0 then of_nat tv / of_nat total_valid_votes
                          else 0)\<rparr>
         else
           \<lparr>true_votes = tv, false_votes = fv, total_votes = total_valid_votes,
            final_decision = pingju, confidence = 1 / 2\<rparr>)"


section \<open>cache\_utils.py\<close>

text \<open>
  \<open>urllib.parse.urlparse\<close> belongs to the standard library and is a parameter of the
  model: it gives the components of a URL, or \<open>None\<close> when it raises
  \<open>ValueError\<close>.
\<close>

record 's parsed_url =
  scheme :: 's
  netloc :: 's
  path :: 's

definition normalize_url :: "(string \<Rightarrow> string parsed_url option) \<Rightarrow> string \<Rightarrow> py_error + string" where
  "normalize_url urlparse u =
     (case urlparse u of
        None \<Rightarrow> Inl ValueError
      | Some parsed \<Rightarrow> Inr (scheme parsed @ ''://'' @ netloc parsed @ path parsed))"

record cache_row =
  url :: string
  normalized_url :: string
  random_id :: string

text \<open>
  The \<open>while\<close> loop that draws ids until one is not in the table: \<open>supply\<close> is the
  sequence of ids \<open>generate_random_id\<close> returns, and the result is \<open>None\<close> when every
  id of the supply is taken.
\<close>

fun draw_id :: "string list \<Rightarrow> string list \<Rightarrow> string option" where
  "draw_id [] taken = None"
| "draw_id (candidate # supply) taken =
     (if candidate \<in> set taken then draw_id supply taken else Some candidate)"

definition get_or_create_id_for_url :: "(string \<Rightarrow> string parsed_url option) \<Rightarrow> string list \<Rightarrow> string
    \<Rightarrow> cache_row list \<Rightarrow> (string \<times> cache_row list) run" where
  "get_or_create_id_for_url urlparse supply u url_cache =
     (case normalize_url urlparse u of
        Inl e \<Rightarrow> Fails e
      | Inr normalized \<Rightarrow>
          (case filter (\<lambda>row. normalized_url row = normalized) url_cache of
             existing # _ \<Rightarrow> Done (random_id existing, url_cache)
           | [] \<Rightarrow>
               (case draw_id supply (map random_id url_cache) of
                  None \<Rightarrow> Pending
                | Some rid \<Rightarrow>
                    Done (rid, url_cache @
                            [\<lparr>url = u, normalized_url = normalized, random_id = rid\<rparr>]))))"


section \<open>process/process\_json.py\<close>

text \<open>
  What \<open>json.load\<close> returns. An object keeps its pairs in the order of the file; a
  key that occurs twice has the value of its last occurrence.
\<close>

datatype json =
  JNull | JBool bool | JNum int | JStr string | JArr "json list" | JObj "(string \<times> json) list"

definition dict_get :: "(string \<times> json) list \<Rightarrow> string \<Rightarrow> json option" where
  "dict_get kvs k = map_of (rev kvs) k"

text \<open>\<open>x.get(k)\<close>: only a dictionary has the method.\<close>

fun get :: "json \<Rightarrow> string \<Rightarrow> py_error + json option" where
  "get (JObj kvs) k = Inr (dict_get kvs k)"
| "get _ k = Inl AttributeError"

text \<open>\<open>x.get(k, '')\<close>.\<close>

definition get_or_empty :: "json \<Rightarrow> string \<Rightarrow> py_error + json" where
  "get_or_empty x k =
     (case get x k of
        Inl e \<Rightarrow> Inl e
      | Inr None \<Rightarrow> Inr (JStr [])
      | Inr (Some v) \<Rightarrow> Inr v)"

definition has_role :: "json \<Rightarrow> string \<Rightarrow> py_error + bool" where
  "has_role message r =
     (case get message ''role'' of Inl e \<Rightarrow> Inl e | Inr v \<Rightarrow> Inr (v = Some (JStr r)))"

text \<open>
  What a \<open>for\<close> loop over \<open>messages\<close> walks: the elements of a list, the characters
  of a string, the keys of a dictionary; anything else is not iterable.
\<close>

fun iterate :: "json \<Rightarrow> py_error + json list" where
  "iterate (JArr xs) = Inr xs"
| "iterate (JStr s) = Inr (map (\<lambda>c. JStr [c]) s)"
| "iterate (JObj kvs) = Inr (map (\<lambda>kv. JStr (fst kv)) kvs)"
| "iterate _ = Inl TypeError"

text \<open>Step 1: the loop that stops at the first message of role \<open>user\<close>.\<close>

fun first_user_content :: "json list \<Rightarrow> py_error + json" where
  "first_user_content [] = Inr (JStr [])"
| "first_user_content (message # rest) =
     (case has_role message ''user'' of
        Inl e \<Rightarrow> Inl e
      | Inr True \<Rightarrow> get_or_empty message ''content''
      | Inr False \<Rightarrow> first_user_content rest)"

text \<open>
  Step 2, first loop: it collects sequences of assistant messages that nothing reads
  afterwards, but it asks every message for its role.
\<close>

fun scan_roles :: "json list \<Rightarrow> py_error + unit" where
  "scan_roles [] = Inr ()"
| "scan_roles (message # rest) =
     (case has_role message ''assistant'' of Inl e \<Rightarrow> Inl e | Inr _ \<Rightarrow> scan_roles rest)"

text \<open>
  Step 2, second loop: the first index \<open>i\<close> with \<open>messages[i]\<close> and
  \<open>messages[i + 1]\<close> both of role \<open>assistant\<close>; the result is \<open>messages[i + 1]\<close>.
\<close>

fun consecutive_assistants :: "json list \<Rightarrow> py_error + json option" where
  "consecutive_assistants (a # b # rest) =
     (case has_role a ''assistant'' of
        Inl e \<Rightarrow> Inl e
      | Inr False \<Rightarrow> consecutive_assistants (b # rest)
      | Inr True \<Rightarrow>
          (case has_role b ''assistant'' of
             Inl e \<Rightarrow> Inl e
           | Inr False \<Rightarrow> consecutive_assistants (b # rest)
           | Inr True \<Rightarrow> Inr (Some b)))"
| "consecutive_assistants _ = Inr None"

record transcript =
  prompt :: json
  answer :: json
  activity :: json
  reference :: json

definition extract_transcript :: "json \<Rightarrow> py_error + transcript" where
  "extract_transcript data =
     (case get data ''messages'' of
        Inl e \<Rightarrow> Inl e
      | Inr ms \<Rightarrow>
     (case iterate (case ms of None \<Rightarrow> JArr [] | Some v \<Rightarrow> v) of
        Inl e \<Rightarrow> Inl e
      | Inr messages \<Rightarrow>
     (case first_user_content messages of
        Inl e \<Rightarrow> Inl e
      | Inr p \<Rightarrow>
     (case scan_roles messages of
        Inl e \<Rightarrow> Inl e
      | Inr _ \<Rightarrow>
     (case consecutive_assistants messages of
        Inl e \<Rightarrow> Inl e
      | Inr pair \<Rightarrow>
     (case (case pair of None \<Rightarrow> Inr (JStr []) | Some second \<Rightarrow> get_or_empty second ''content'') of
        Inl e \<Rightarrow> Inl e
      | Inr a \<Rightarrow>
     (case get_or_empty data ''activity'' of
        Inl e \<Rightarrow> Inl e
      | Inr act \<Rightarrow>
     (case get_or_empty data ''reference'' of
        Inl e \<Rightarrow> Inl e
      | Inr ref \<Rightarrow>
          Inr \<lparr>prompt = p, answer = a, activity = act, reference = ref\<rparr>))))))))"

text \<open>
  \<open>process_openai_json\<close>: the argument is what opening and loading the file gives;
  every exception ends in \<open>return None\<close>.
\<close>

definition process_openai_json :: "py_error + json \<Rightarrow> transcript option" where
  "process_openai_json loaded =
     (case loaded of
        Inl e \<Rightarrow> None
      | Inr data \<Rightarrow> (case extract_transcript data of Inl e \<Rightarrow> None | Inr r \<Rightarrow> Some r))"

subsection \<open>The extraction rules as the specification words them\<close>

definition role_is :: "string \<Rightarrow> (string \<times> json) list \<Rightarrow> bool" where
  "role_is r message = (dict_get message ''role'' = Some (JStr r))"

definition content_of :: "(string \<times> json) list \<Rightarrow> json" where
  "content_of message = (case dict_get message ''content'' of None \<Rightarrow> JStr [] | Some v \<Rightarrow> v)"

text \<open>The content of the first message whose role is \<open>user\<close>.\<close>

definition spec_prompt :: "(string \<times> json) list list \<Rightarrow> json" where
  "spec_prompt messages =
     (case List.find (role_is ''user'') messages of
        None \<Rightarrow> JStr []
      | Some message \<Rightarrow> content_of message)"

text \<open>
  The maximal runs of consecutive assistant messages, from left to right.
\<close>

fun runs_from :: "(string \<times> json) list list \<Rightarrow> (string \<times> json) list list
    \<Rightarrow> (string \<times> json) list list list" where
  "runs_from run [] = (if run = [] then [] else [run])"
| "runs_from run (m # ms) =
     (if role_is ''assistant'' m then runs_from (run @ [m]) ms
      else (if run = [] then [] else [run]) @ runs_from [] ms)"

definition assistant_runs :: "(string \<times> json) list list \<Rightarrow> (string \<times> json) list list list" where
  "assistant_runs messages = runs_from [] messages"

text \<open>
  The content of the second message of the first run of two or more; the empty string
  when there is no such run.
\<close>

definition spec_answer :: "(string \<times> json) list list \<Rightarrow> json" where
  "spec_answer messages =
     (case List.find (\<lambda>run. length run \<ge> 2) (assistant_runs messages) of
        None \<Rightarrow> JStr []
      | Some run \<Rightarrow> content_of (run ! 1))"


section \<open>metrics\_calculator.py\<close>

text \<open>
  \<open>pandas\<close> is a library; of a table that \<open>pd.read_csv\<close> returns the model keeps
  what \<open>calculate_file_metrics\<close> reads: its length, its column names, what
  \<open>df['match'].sum()\<close> gives (\<open>None\<close> when it raises, otherwise a number or, for a
  column of strings, a string), and the cells of the column \<open>final_decision\<close>.
\<close>

datatype pyval = Num rat | Str string

record dataframe =
  df_len :: nat
  df_columns :: "string list"
  df_match_sum :: "pyval option"
  df_final_decision :: "string cell list"

text \<open>
  A file of the results directory: absent, present but rejected by \<open>pd.read_csv\<close>,
  or present and read as a table.
\<close>

datatype csv_file = Missing | Unreadable | Table dataframe

record metrics =
  arxiv_id :: string
  timestamp :: string
  total_citations :: nat
  total_no_citations :: nat
  total_statements :: nat
  matched_statements :: nat
  match_rate :: rat
  aligned_statements :: pyval
  alignment_rate :: rat
  no_citations_correct :: nat
  no_citations_incorrect :: nat
  no_citations_tie :: nat
  no_citations_accuracy :: rat
  has_citations :: bool
  has_no_citations :: bool
  has_matched :: bool
  has_final :: bool
  has_no_citations_verification :: bool
  missing_files :: "string list"

definition initial_metrics :: "string \<Rightarrow> string \<Rightarrow> metrics" where
  "initial_metrics aid now =
     \<lparr>arxiv_id = aid, timestamp = now,
      total_citations = 0, total_no_citations = 0, total_statements = 0,
      matched_statements = 0, match_rate = 0,
      aligned_statements = Num 0, alignment_rate = 0,
      no_citations_correct = 0, no_citations_incorrect = 0, no_citations_tie = 0,
      no_citations_accuracy = 0,
      has_citations = False, has_no_citations = False, has_matched = False,
      has_final = False, has_no_citations_verification = False,
      missing_files = []\<rparr>"

definition add_missing :: "string \<Rightarrow> metrics \<Rightarrow> metrics" where
  "add_missing name m = m\<lparr>missing_files := missing_files m @ [name]\<rparr>"

definition read_no_citations :: "csv_file \<Rightarrow> metrics \<Rightarrow> metrics" where
  "read_no_citations f m =
     (case f of
        Missing \<Rightarrow> add_missing ''no_citations.csv'' m
      | Unreadable \<Rightarrow> add_missing ''no_citations.csv'' m
      | Table df \<Rightarrow> m\<lparr>total_no_citations := df_len df, has_no_citations := True\<rparr>)"

definition read_matched :: "csv_file \<Rightarrow> metrics \<Rightarrow> metrics" where
  "read_matched f m =
     (case f of
        Missing \<Rightarrow> add_missing ''matched.csv'' m
      | Unreadable \<Rightarrow> add_missing ''matched.csv'' m
      | Table df \<Rightarrow>
          let m1 = m\<lparr>matched_statements := df_len df, has_matched := True\<rparr>
          in if total_citations m1 > 0
             then m1\<lparr>match_rate := of_nat (matched_statements m1) / of_nat (total_citations m1)\<rparr>
             else m1)"

definition read_final :: "csv_file \<Rightarrow> metrics \<Rightarrow> metrics" where
  "read_final f m =
     (case f of
        Missing \<Rightarrow> add_missing ''final.csv'' m
      | Unreadable \<Rightarrow> add_missing ''final.csv'' m
      | Table df \<Rightarrow>
          (case (if ''match'' \<in> set (df_columns df) then df_match_sum df else Some (Num 0)) of
             None \<Rightarrow> add_missing ''final.csv'' m
           | Some aligned \<Rightarrow>
               let m1 = m\<lparr>aligned_statements := aligned, has_final := True\<rparr>
               in if df_len df > 0
                  then (case aligned of
                          Num a \<Rightarrow> m1\<lparr>alignment_rate := a / of_nat (df_len df)\<rparr>
                        | Str _ \<Rightarrow> add_missing ''final.csv'' m1)
                  else m1))"

definition count_label :: "string \<Rightarrow> string cell list \<Rightarrow> nat" where
  "count_label label cells = length (filter (\<lambda>c. c = Cell label) cells)"

definition read_web_final :: "csv_file \<Rightarrow> metrics \<Rightarrow> metrics" where
  "read_web_final f m =
     (case f of
        Missing \<Rightarrow> add_missing ''no_citations_web_final.csv'' m
      | Unreadable \<Rightarrow> add_missing ''no_citations_web_final.csv'' m
      | Table df \<Rightarrow>
          let m1 = m\<lparr>has_no_citations_verification := True\<rparr>
          in if ''final_decision'' \<in> set (df_columns df)
             then
               let m2 = m1\<lparr>no_citations_correct := count_label zhengque (df_final_decision df),
                           no_citations_incorrect := count_label cuowu (df_final_decision df),
                           no_citations_tie := count_label pingju (df_final_decision df)\<rparr>
               in if df_len df > 0
                  then m2\<lparr>no_citations_accuracy :=
                             of_nat (no_citations_correct m2) / of_nat (df_len df)\<rparr>
                  else m2
             else m1)"

text \<open>
  \<open>calculate_file_metrics\<close>: \<open>results_dir\<close> maps a file name to the file, \<open>now\<close>
  is the formatted current time.
\<close>

definition calculate_file_metrics :: "(string \<Rightarrow> csv_file) \<Rightarrow> string \<Rightarrow> string \<Rightarrow> metrics option" where
  "calculate_file_metrics results_dir aid now =
     (case results_dir ''citations.csv'' of
        Missing \<Rightarrow> None
      | Unreadable \<Rightarrow> None
      | Table df_citations \<Rightarrow>
          let m1 = (initial_metrics aid now)
                     \<lparr>total_citations := df_len df_citations, has_citations := True\<rparr>;
              m2 = read_no_citations (results_dir ''no_citations.csv'') m1;
              m3 = m2\<lparr>total_statements := total_citations m2 + total_no_citations m2\<rparr>;
              m4 = read_matched (results_dir ''matched.csv'') m3;
              m5 = read_final (results_dir ''final.csv'') m4;
              m6 = read_web_final (results_dir ''no_citations_web_final.csv'') m5
          in Some m6)"


section \<open>process/extract\_reference\_structured.py\<close>

text \<open>
  \<open>BeautifulSoup\<close> is a library. The model starts from the tree its parser builds: a
  text node, or a tag with its name, its attributes (a dictionary, one pair per key, in
  the order of the source) and its children. Documents with comments, \<open>script\<close> or
  \<open>style\<close> elements are outside the model. All strings are lists of code points.
\<close>

datatype node = Text ustring | Elem ustring "(ustring \<times> ustring) list" "node list"

definition ord :: "char \<Rightarrow> int" where
  "ord c = of_char c"

text \<open>The default output formatter: the three characters it replaces by entities.\<close>

definition substitute_xml :: "ustring \<Rightarrow> ustring" where
  "substitute_xml s =
     concat (map (\<lambda>c. if c = ord CHR ''&'' then ustr ''&amp;''
                       else if c = ord CHR ''<'' then ustr ''&lt;''
                       else if c = ord CHR ''>'' then ustr ''&gt;'' else [c]) s)"

definition double_quote :: int where
  "double_quote = 0x22"

definition single_quote :: int where
  "single_quote = 0x27"

definition quoted_attribute_value :: "ustring \<Rightarrow> ustring" where
  "quoted_attribute_value v =
     (if double_quote \<in> set v then
        (if single_quote \<in> set v
         then [double_quote]
              @ concat (map (\<lambda>c. if c = double_quote then ustr ''&quot;'' else [c]) v)
              @ [double_quote]
         else [single_quote] @ v @ [single_quote])
      else [double_quote] @ v @ [double_quote])"

definition render_attr :: "ustring \<times> ustring \<Rightarrow> ustring" where
  "render_attr kv =
     ustr '' '' @ fst kv @ ustr ''='' @ quoted_attribute_value (substitute_xml (snd kv))"

definition empty_element_tags :: "ustring list" where
  "empty_element_tags =
     map ustr
       [''area'', ''base'', ''br'', ''col'', ''embed'', ''hr'', ''img'', ''input'', ''keygen'',
        ''link'', ''menuitem'', ''meta'', ''param'', ''source'', ''track'', ''wbr'',
        ''basefont'', ''bgsound'', ''command'', ''frame'', ''image'', ''isindex'', ''nextid'',
        ''spacer'']"

text \<open>\<open>str(tag)\<close>.\<close>

fun render :: "node \<Rightarrow> ustring" where
  "render (Text s) = substitute_xml s"
| "render (Elem name attrs children) =
     (if name \<in> set empty_element_tags \<and> children = []
      then ustr ''<'' @ name @ concat (map render_attr attrs) @ ustr ''/>''
      else ustr ''<'' @ name @ concat (map render_attr attrs) @ ustr ''>''
           @ concat (map render children) @ ustr ''</'' @ name @ ustr ''>'')"

text \<open>A node followed by its descendants, in document order.\<close>

fun subtree :: "node \<Rightarrow> node list" where
  "subtree (Text s) = [Text s]"
| "subtree (Elem name attrs children) =
     Elem name attrs children # concat (map subtree children)"

definition descendants :: "node list \<Rightarrow> node list" where
  "descendants nodes = concat (map subtree nodes)"

fun children_of :: "node \<Rightarrow> node list" where
  "children_of (Text s) = []"
| "children_of (Elem name attrs children) = children"

text \<open>\<open>tag.get(k)\<close>.\<close>

fun attr :: "node \<Rightarrow> ustring \<Rightarrow> ustring option" where
  "attr (Text s) k = None"
| "attr (Elem name attrs children) k = map_of attrs k"

fun is_tag :: "ustring \<Rightarrow> node \<Rightarrow> bool" where
  "is_tag t (Text s) = False"
| "is_tag t (Elem name attrs children) = (name = t)"

text \<open>\<open>find_all('a', href=True)\<close> and \<open>find_all('div')\<close>.\<close>

definition find_all_links :: "node list \<Rightarrow> node list" where
  "find_all_links nodes =
     filter (\<lambda>n. is_tag (ustr ''a'') n \<and> attr n (ustr ''href'') \<noteq> None) (descendants nodes)"

definition find_all_divs :: "node \<Rightarrow> node list" where
  "find_all_divs n = filter (is_tag (ustr ''div'')) (descendants (children_of n))"

text \<open>The two markers: the four ideographs \<open>U+5168 U+90E8 U+6765 U+6E90\<close>, and the English one.\<close>

definition all_sources_zh :: ustring where
  "all_sources_zh = [0x5168, 0x90E8, 0x6765, 0x6E90]"

definition all_sources_en :: ustring where
  "all_sources_en = ustr ''All Sources''"

text \<open>
  \<open>soup.find(string=re.compile(...))\<close>: the first text node in which the pattern is
  found.
\<close>

fun is_marker_text :: "node \<Rightarrow> bool" where
  "is_marker_text (Text s) = (contains s all_sources_zh \<or> contains s all_sources_en)"
| "is_marker_text (Elem name attrs children) = False"

definition find_source_element :: "node list \<Rightarrow> node option" where
  "find_source_element nodes = List.find is_marker_text (descendants nodes)"

text \<open>\<open>tag.get_text(strip=True)\<close>.\<close>

fun text_of :: "node \<Rightarrow> ustring" where
  "text_of (Text s) = strip s"
| "text_of (Elem name attrs children) = []"

definition get_text :: "node \<Rightarrow> ustring" where
  "get_text n = concat (map text_of (descendants (children_of n)))"

record detailed_reference =
  ref_index :: nat
  ref_domain :: ustring
  ref_url :: ustring
  ref_title :: ustring
  ref_description :: ustring

record domain_info =
  dom_index :: nat
  dom_domain :: ustring
  dom_href :: ustring
  dom_count :: nat

record structured =
  detailed_references :: "detailed_reference list"
  domain_summary :: "domain_info list"

definition extract_detailed_reference_simple :: "(ustring \<Rightarrow> ustring parsed_url option) \<Rightarrow> node
    \<Rightarrow> nat \<Rightarrow> py_error + detailed_reference option" where
  "extract_detailed_reference_simple urlparse link index =
     (case attr link (ustr ''href'') of
        None \<Rightarrow> Inr None
      | Some href \<Rightarrow>
          if href = [] then Inr None
          else (case urlparse href of
                  None \<Rightarrow> Inl ValueError
                | Some parsed \<Rightarrow>
                    let divs = find_all_divs link;
                        display_text = get_text link;
                        title =
                          (if length divs \<ge> 3 then get_text (divs ! 1)
                           else if length divs = 2 then get_text (divs ! 0)
                           else if length display_text > 100
                           then take 100 display_text @ ustr ''...''
                           else display_text);
                        description =
                          (if length divs \<ge> 3 then get_text (divs ! 2)
                           else if length divs = 2 then get_text (divs ! 1)
                           else display_text)
                    in Inr (Some \<lparr>ref_index = index, ref_domain = netloc parsed, ref_url = href,
                                  ref_title = title, ref_description = description\<rparr>)))"

text \<open>
  The decimal digits of Unicode, which are what \<open>\d\<close> matches in a \<open>str\<close> pattern
  and what \<open>int\<close> reads: they come in runs of ten, from the digit zero to the digit
  nine, and the list has the code point of each zero (Unicode 14.0, as in Python 3.11).
\<close>

definition decimal_zeros :: "int list" where
  "decimal_zeros =
     [0x30, 0x660, 0x6F0, 0x7C0, 0x966, 0x9E6, 0xA66, 0xAE6, 0xB66, 0xBE6, 0xC66, 0xCE6,
      0xD66, 0xDE6, 0xE50, 0xED0, 0xF20, 0x1040, 0x1090, 0x17E0, 0x1810, 0x1946, 0x19D0,
      0x1A80, 0x1A90, 0x1B50, 0x1BB0, 0x1C40, 0x1C50, 0xA620, 0xA8D0, 0xA900, 0xA9D0,
      0xA9F0, 0xAA50, 0xABF0, 0xFF10, 0x104A0, 0x10D30, 0x11066, 0x110F0, 0x11136,
      0x111D0, 0x112F0, 0x11450, 0x114D0, 0x11650, 0x116C0, 0x11730, 0x118E0, 0x11950,
      0x11C50, 0x11D50, 0x11DA0, 0x16A60, 0x16AC0, 0x16B50, 0x1D7CE, 0x1D7D8, 0x1D7E2,
      0x1D7EC, 0x1D7F6, 0x1E140, 0x1E2F0, 0x1E950, 0x1FBF0]"

definition digit_value :: "int \<Rightarrow> nat option" where
  "digit_value c =
     (case List.find (\<lambda>z. z \<le> c \<and> c < z + 10) decimal_zeros of
        None \<Rightarrow> None
      | Some z \<Rightarrow> Some (nat (c - z)))"

definition isdigit :: "int \<Rightarrow> bool" where
  "isdigit c = (digit_value c \<noteq> None)"

text \<open>The run of digits at the end of a text, and the number it writes.\<close>

definition trailing_digits :: "ustring \<Rightarrow> ustring" where
  "trailing_digits s = rev (takeWhile isdigit (rev s))"

definition parse_nat :: "ustring \<Rightarrow> nat" where
  "parse_nat ds =
     foldl (\<lambda>n c. 10 * n + (case digit_value c of None \<Rightarrow> 0 | Some d \<Rightarrow> d)) 0 ds"

text \<open>
  \<open>int(s)\<close> raises \<open>ValueError\<close> when \<open>s\<close> has more digits than the limit of the
  interpreter, 4300 unless it is changed.
\<close>

definition int_max_str_digits :: nat where
  "int_max_str_digits = 4300"

definition extract_domain_info_simple :: "node \<Rightarrow> nat \<Rightarrow> py_error + domain_info option" where
  "extract_domain_info_simple link index =
     (case attr link (ustr ''href'') of
        None \<Rightarrow> Inr None
      | Some href \<Rightarrow>
          if href = [] then Inr None
          else
            let display_text = get_text link;
                digits = trailing_digits display_text
            in if digits \<noteq> []
               then (if length digits > int_max_str_digits then Inl ValueError
                     else Inr (Some \<lparr>dom_index = index,
                                     dom_domain =
                                       take (length display_text - length digits) display_text,
                                     dom_href = href, dom_count = parse_nat digits\<rparr>))
               else Inr (Some \<lparr>dom_index = index, dom_domain = display_text, dom_href = href,
                               dom_count = 1\<rparr>))"

text \<open>
  The loop over \<open>all_links\<close>, with the two lists built so far.
\<close>

fun classify_links :: "(ustring \<Rightarrow> ustring parsed_url option) \<Rightarrow> ustring \<Rightarrow> int \<Rightarrow> node list
    \<Rightarrow> detailed_reference list \<Rightarrow> domain_info list \<Rightarrow> py_error + structured" where
  "classify_links urlparse html_str source_position [] ds ss =
     Inr \<lparr>detailed_references = ds, domain_summary = ss\<rparr>"
| "classify_links urlparse html_str source_position (link # links) ds ss =
     (let link_position = find html_str (render link) in
      if link_position < source_position then
        (case extract_detailed_reference_simple urlparse link (length ds + 1) of
           Inl e \<Rightarrow> Inl e
         | Inr None \<Rightarrow> classify_links urlparse html_str source_position links ds ss
         | Inr (Some ref_info) \<Rightarrow>
             classify_links urlparse html_str source_position links (ds @ [ref_info]) ss)
      else
        (case extract_domain_info_simple link (length ss + 1) of
           Inl e \<Rightarrow> Inl e
         | Inr None \<Rightarrow> classify_links urlparse html_str source_position links ds ss
         | Inr (Some domain_info) \<Rightarrow>
             classify_links urlparse html_str source_position links ds (ss @ [domain_info])))"

text \<open>
  \<open>extract_reference_structured(reference_html=...)\<close>; \<open>parse\<close> is the parser of
  the library.
\<close>

definition extract_reference_structured :: "(ustring \<Rightarrow> ustring parsed_url option)
    \<Rightarrow> (ustring \<Rightarrow> node list) \<Rightarrow> ustring \<Rightarrow> py_error + structured option" where
  "extract_reference_structured urlparse parse reference_html =
     (if reference_html = [] then Inr None
      else
        let soup = parse reference_html;
            all_links = find_all_links soup
        in (case find_source_element soup of
              None \<Rightarrow> Inr None
            | Some source_element \<Rightarrow>
                let html_str = concat (map render soup);
                    p = find html_str all_sources_zh;
                    source_position = (if p = -1 then find html_str all_sources_en else p)
                in (case classify_links urlparse html_str source_position all_links [] [] of
                      Inl e \<Rightarrow> Inl e
                    | Inr r \<Rightarrow> Inr (Some r))))"


section \<open>Properties of the text chunking\<close>

lemma split_on_no_sep: "c \<notin> set s \<Longrightarrow> split_on c s = [s]"
  by (induction s) auto

lemma upt_0_2: "[0..<2] = [0, 1::nat]"
  by (simp add: upt_rec)

lemma split_on_not_Nil: "split_on c s \<noteq> []"
  by (induction s) auto

lemma join_Cons_Cons: "join sep ((x # l) # ls) = x # join sep (l # ls)"
  by (cases ls) auto

lemma join_split_on: "join [c] (split_on c s) = s"
proof (induction s)
  case Nil
  show ?case by simp
next
  case (Cons x xs)
  show ?case
  proof (cases "x = c")
    case True
    obtain l ls where r: "split_on c xs = l # ls"
      using split_on_not_Nil [of c xs] by (cases "split_on c xs") auto
    with True Cons.IH show ?thesis by simp
  next
    case False
    obtain l ls where r: "split_on c xs = l # ls"
      using split_on_not_Nil [of c xs] by (cases "split_on c xs") auto
    with False Cons.IH show ?thesis by (simp add: join_Cons_Cons)
  qed
qed

lemma join_append:
  "xs \<noteq> [] \<Longrightarrow> ys \<noteq> [] \<Longrightarrow> join sep (xs @ ys) = join sep xs @ sep @ join sep ys"
proof (induction sep xs rule: join.induct)
  case (1 sep)
  then show ?case by simp
next
  case (2 sep x)
  then show ?case by (cases ys) auto
next
  case (3 sep x y ys')
  then show ?case by simp
qed

lemma join_groups:
  "\<forall>g \<in> set gs. g \<noteq> [] \<Longrightarrow> join sep (map (join sep) gs) = join sep (concat gs)"
proof (induction gs)
  case Nil
  show ?case by simp
next
  case (Cons g gs)
  show ?case
  proof (cases gs)
    case Nil
    then show ?thesis by simp
  next
    case (Cons g' gs')
    with Cons.prems have ne: "concat gs \<noteq> []" "g \<noteq> []"
      by auto
    from Cons.prems Cons.IH have ih: "join sep (map (join sep) gs) = join sep (concat gs)"
      by simp
    have "join sep (map (join sep) (g # gs)) = join sep g @ sep @ join sep (map (join sep) gs)"
      using Cons by simp
    also have "\<dots> = join sep (g @ concat gs)"
      using ne ih by (simp add: join_append)
    finally show ?thesis by simp
  qed
qed

text \<open>
  The branch without headings. The blocks built so far are the joins of groups of lines,
  none of them empty, and the groups followed by the current block are the lines read
  so far.
\<close>

lemma plain_step_groups:
  assumes "blocks = map (join [newline]) gs" and "\<forall>g \<in> set gs. g \<noteq> []"
    and "plain_step max_size (blocks, cur, sz) line = (blocks', cur', sz')"
  shows "\<exists>gs'. blocks' = map (join [newline]) gs' \<and> (\<forall>g \<in> set gs'. g \<noteq> []) \<and>
           concat gs' @ cur' = concat gs @ cur @ [line] \<and> cur' \<noteq> []"
proof (cases "sz + (int (length line) + 1) > max_size \<and> cur \<noteq> []")
  case True
  with assms(3) have "blocks' = blocks @ [join [newline] cur]" "cur' = [line]"
    by (simp_all add: plain_step_def Let_def)
  with assms(1,2) True show ?thesis
    by (intro exI [of _ "gs @ [cur]"]) auto
next
  case False
  with assms(3) have "blocks' = blocks" "cur' = cur @ [line]"
    by (auto simp: plain_step_def Let_def)
  with assms(1,2) show ?thesis
    by (intro exI [of _ gs]) auto
qed

lemma plain_loop_groups:
  assumes "blocks = map (join [newline]) gs" and "\<forall>g \<in> set gs. g \<noteq> []"
    and "foldl (plain_step max_size) (blocks, cur, sz) lines = (blocks', cur', sz')"
  shows "\<exists>gs'. blocks' = map (join [newline]) gs' \<and> (\<forall>g \<in> set gs'. g \<noteq> []) \<and>
           concat gs' @ cur' = concat gs @ cur @ lines \<and>
           (cur \<noteq> [] \<or> lines \<noteq> [] \<longrightarrow> cur' \<noteq> [])"
  using assms
proof (induction lines arbitrary: blocks gs cur sz)
  case Nil
  then show ?case by auto
next
  case (Cons line lines)
  obtain b1 c1 s1 where st: "plain_step max_size (blocks, cur, sz) line = (b1, c1, s1)"
    by (cases "plain_step max_size (blocks, cur, sz) line") auto
  from plain_step_groups [OF Cons.prems(1,2) st] obtain g1 where
    g1: "b1 = map (join [newline]) g1" "\<forall>g \<in> set g1. g \<noteq> []"
        "concat g1 @ c1 = concat gs @ cur @ [line]" "c1 \<noteq> []"
    by blast
  from Cons.prems(3) st have "foldl (plain_step max_size) (b1, c1, s1) lines = (blocks', cur', sz')"
    by simp
  from Cons.IH [OF g1(1,2) this] obtain gs' where
    gs': "blocks' = map (join [newline]) gs'" "\<forall>g \<in> set gs'. g \<noteq> []"
         "concat gs' @ cur' = concat g1 @ c1 @ lines" "c1 \<noteq> [] \<or> lines \<noteq> [] \<longrightarrow> cur' \<noteq> []"
    by blast
  have "cur' \<noteq> []"
    using gs'(4) g1(4) by simp
  moreover have "concat gs' @ cur' = concat gs @ cur @ line # lines"
    using gs'(3) g1(3) by (metis append.assoc append_Cons append_Nil)
  ultimately show ?case
    using gs'(1,2) by blast
qed

text \<open>
  So a text without heading lines is always split into blocks whose join is the text:
  the assertion can only fire in the branch with headings.
\<close>

lemma split_plain_reconstructs:
  "\<exists>blocks. split_plain text (split_on newline text) max_size = Inr blocks \<and>
            join [newline] blocks = text"
proof -
  let ?lines = "split_on newline text"
  obtain blocks cur sz where f: "foldl (plain_step max_size) ([], [], 0) ?lines = (blocks, cur, sz)"
    by (cases "foldl (plain_step max_size) ([], [], 0) ?lines") auto
  from plain_loop_groups [of "[]" "[]", OF _ _ f] obtain gs where
    gs: "blocks = map (join [newline]) gs" "\<forall>g \<in> set gs. g \<noteq> []"
        "concat gs @ cur = ?lines" "cur \<noteq> []"
    using split_on_not_Nil [of newline "text"] by auto
  have "join [newline] (blocks @ [join [newline] cur]) = join [newline] (map (join [newline]) (gs @ [cur]))"
    using gs(1) by simp
  also have "\<dots> = join [newline] (concat (gs @ [cur]))"
    by (rule join_groups) (use gs(2,4) in auto)
  also have "\<dots> = text"
    using gs(3) by (simp add: join_split_on)
  finally have "join [newline] (blocks @ [join [newline] cur]) = text" .
  then show ?thesis
    using f gs(4) by (simp add: split_plain_def Let_def)
qed

lemma split_text_by_headers_no_headers:
  "header_indices (split_on newline text) = [] \<Longrightarrow>
   \<exists>blocks. split_text_by_headers text max_size = Inr blocks \<and> join [newline] blocks = text"
  using split_plain_reconstructs [of "text" max_size]
  by (simp add: split_text_by_headers_def Let_def)

text \<open>A text with a character that is not white space is not blank.\<close>

lemma in_dropWhile: "x \<in> set xs \<Longrightarrow> \<not> P x \<Longrightarrow> x \<in> set (dropWhile P xs)"
  by (induction xs) auto

lemma strip_not_blank: "x \<in> set s \<Longrightarrow> \<not> isspace x \<Longrightarrow> strip s \<noteq> []"
  using in_dropWhile [of x "rev (dropWhile isspace s)" isspace] in_dropWhile [of x s isspace]
  by (auto simp: strip_def)

text \<open>
  A text that opens with an empty line, followed by a heading whose section is longer
  than the threshold: the empty preamble becomes a block of its own, the filter of blank
  blocks removes it, and the reconstruction check fails.
\<close>

lemma blank_preamble_dropped:
  assumes "0 \<le> max_size" and "max_size < int n + 3"
  shows "split_text_by_headers (newline # ustr ''# '' @ replicate n (ord CHR ''a'')) max_size
         = Inl AssertionError"
proof -
  let ?h = "ustr ''# '' @ replicate n (ord CHR ''a'')"
  have nl: "newline \<notin> set ?h"
    by (auto simp: newline_def ustr_def ord_def)
  have lines: "split_on newline (newline # ?h) = [[], ?h]"
    using split_on_no_sep [OF nl] by simp
  have hdr: "is_header ?h" "\<not> is_header []"
    by (simp_all add: is_header_def startswith_def ustr_def)
  have hs: "header_indices [[], ?h] = [1]"
    using hdr by (simp add: header_indices_def upt_0_2)
  have len: "length ?h = n + 2"
    by (simp add: ustr_def)
  have s1: "header_step [[], ?h] [0, 1, 2] max_size ([], 0) 1 = ([], 0)"
    using assms by (simp add: header_step_def slice_def Let_def)
  have s2: "header_step [[], ?h] [0, 1, 2] max_size ([], 0) 2 = ([[], ?h], 2)"
    using assms len by (simp add: header_step_def slice_def Let_def)
  have "35 \<in> set ?h"
    by (simp add: ustr_def)
  moreover have "\<not> isspace 35"
    by (simp add: isspace_def whitespace_def)
  ultimately have "strip ?h \<noteq> []"
    by (rule strip_not_blank)
  moreover have "strip [] = []"
    by (simp add: strip_def)
  ultimately have st: "strip [] = []" "strip ?h \<noteq> []"
    by blast+
  have ai: "[0] @ [1::nat] @ [length [[], ?h]] = [0, 1, 2]"
    by simp
  have rng: "[1..<length [0, 1, 2::nat]] = [1, 2]"
    by (simp add: upt_rec)
  have fl: "foldl (header_step [[], ?h] [0, 1, 2] max_size) ([], 0) [1, 2] = ([[], ?h], 2)"
    by (simp only: foldl.simps s1 s2)
  have "split_headers (newline # ?h) [[], ?h] [1] max_size = Inl AssertionError"
    unfolding split_headers_def Let_def ai rng fl using st by simp
  then show ?thesis
    unfolding split_text_by_headers_def by (simp only: lines hs Let_def) simp
qed

lemma ustr_preamble:
  "ustr (CHR 0x0A # ''# '' @ replicate n CHR ''a'') = newline # ustr ''# '' @ replicate n (ord CHR ''a'')"
  by (simp add: ustr_def newline_def ord_def)

text \<open>
  Claim C1. The claim: for every text and every positive threshold, joining the chunks
  of \<open>split_text_by_headers\<close> with newlines gives the text back, so that the
  assertion of the function never fires. On the text made of an empty line and the
  heading line \<open># aaa...\<close> with 16384 letters, and with the default threshold
  \<open>BLOCK_SIZE\<close>, the function raises \<open>AssertionError\<close>.
\<close>

theorem split_text_by_headers_assertion_fires:
  "split_text_by_headers (ustr (CHR 0x0A # ''# '' @ replicate 16384 CHR ''a'')) BLOCK_SIZE
   = Inl AssertionError"
  unfolding ustr_preamble by (rule blank_preamble_dropped) (simp_all add: BLOCK_SIZE_def)

section \<open>Properties of the vote\<close>

lemma count_votes_fields:
  "true_votes (count_votes ds) = length (filter boolean_decision ds)"
  "false_votes (count_votes ds) = length ds - length (filter boolean_decision ds)"
  by (simp_all add: count_votes_def Let_def comp_def)

lemma count_votes_decision:
  "final_decision (count_votes ds) =
     (if length ds - length (filter boolean_decision ds) > length (filter boolean_decision ds)
      then cuowu
      else if length (filter boolean_decision ds) > length ds - length (filter boolean_decision ds)
      then zhengque else pingju)"
  by (simp add: count_votes_def Let_def comp_def)

lemma count_votes_confidence:
  "ds \<noteq> [] \<Longrightarrow> confidence (count_votes ds) =
     (if length ds - length (filter boolean_decision ds) > length (filter boolean_decision ds)
      then of_nat (length ds - length (filter boolean_decision ds)) / of_nat (length ds)
      else if length (filter boolean_decision ds) > length ds - length (filter boolean_decision ds)
      then of_nat (length (filter boolean_decision ds)) / of_nat (length ds) else 1 / 2)"
  by (simp add: count_votes_def Let_def comp_def)

text \<open>
  Claim C4. For a statement with 6 collected votes, of which \<open>t\<close> count as true and
  \<open>f = 6 - t\<close> as false: when \<open>t > f\<close> the decision is the label for "correct" with
  confidence \<open>t / 6\<close>; when \<open>f > t\<close> it is the label for "wrong" with confidence
  \<open>f / 6\<close>; when both are 3 it is the label for "tie" with confidence \<open>1 / 2\<close>.
\<close>

theorem count_votes_majority:
  "length decisions = 6 \<Longrightarrow>
   (let t = length (filter boolean_decision decisions);
        f = 6 - t;
        v = count_votes decisions
    in true_votes v = t \<and> false_votes v = f \<and>
       (t > f \<longrightarrow> final_decision v = zhengque \<and> confidence v = of_nat t / 6) \<and>
       (f > t \<longrightarrow> final_decision v = cuowu \<and> confidence v = of_nat f / 6) \<and>
       (t = f \<longrightarrow> final_decision v = pingju \<and> confidence v = 1 / 2))"
proof -
  assume len: "length decisions = 6"
  then have ne: "decisions \<noteq> []"
    by auto
  show ?thesis
    unfolding Let_def count_votes_fields count_votes_decision count_votes_confidence [OF ne] len
    by simp
qed

text \<open>Four votes against two, and three against three.\<close>

theorem count_votes_majority_witness:
  "final_decision (count_votes [DBool True, DBool True, DBool True, DBool True, DBool False, DBool False]) = zhengque
   \<and> confidence (count_votes [DBool True, DBool True, DBool True, DBool True, DBool False, DBool False]) = 4 / 6
   \<and> final_decision (count_votes [DBool True, DBool False, DBool True, DBool False, DBool True, DBool False]) = pingju
   \<and> confidence (count_votes [DBool True, DBool False, DBool True, DBool False, DBool True, DBool False]) = 1 / 2"
  using count_votes_majority [of "[DBool True, DBool True, DBool True, DBool True, DBool False, DBool False]"]
        count_votes_majority [of "[DBool True, DBool False, DBool True, DBool False, DBool True, DBool False]"]
  by (simp add: Let_def)

section \<open>Properties of the metrics calculator\<close>

lemma read_no_citations_keeps: "set (missing_files m) \<subseteq> set (missing_files (read_no_citations f m))"
  by (auto simp: read_no_citations_def add_missing_def split: csv_file.splits)

lemma read_matched_keeps: "set (missing_files m) \<subseteq> set (missing_files (read_matched f m))"
  by (auto simp: read_matched_def add_missing_def Let_def split: csv_file.splits)

lemma read_final_keeps: "set (missing_files m) \<subseteq> set (missing_files (read_final f m))"
  by (auto simp: read_final_def add_missing_def Let_def split: csv_file.splits option.splits pyval.splits)

lemma read_web_final_keeps: "set (missing_files m) \<subseteq> set (missing_files (read_web_final f m))"
  by (auto simp: read_web_final_def add_missing_def Let_def split: csv_file.splits)

lemma read_no_citations_adds:
  "f = Missing \<or> f = Unreadable \<Longrightarrow> ''no_citations.csv'' \<in> set (missing_files (read_no_citations f m))"
  by (auto simp: read_no_citations_def add_missing_def)

lemma read_matched_adds:
  "f = Missing \<or> f = Unreadable \<Longrightarrow> ''matched.csv'' \<in> set (missing_files (read_matched f m))"
  by (auto simp: read_matched_def add_missing_def)

lemma read_final_adds:
  "f = Missing \<or> f = Unreadable \<Longrightarrow> ''final.csv'' \<in> set (missing_files (read_final f m))"
  by (auto simp: read_final_def add_missing_def)

lemma read_web_final_adds:
  "f = Missing \<or> f = Unreadable
   \<Longrightarrow> ''no_citations_web_final.csv'' \<in> set (missing_files (read_web_final f m))"
  by (auto simp: read_web_final_def add_missing_def)

lemma missing_files_total_statements [simp]:
  "missing_files (m\<lparr>total_statements := n\<rparr>) = missing_files m"
  by simp

lemma calculate_file_metrics_Table:
  "results_dir ''citations.csv'' = Table df \<Longrightarrow>
   \<exists>m. calculate_file_metrics results_dir aid now = Some m \<and>
       (\<forall>f \<in> set [''no_citations.csv'', ''matched.csv'', ''final.csv'',
                    ''no_citations_web_final.csv''].
          results_dir f = Missing \<or> results_dir f = Unreadable \<longrightarrow> f \<in> set (missing_files m))"
proof -
  assume c: "results_dir ''citations.csv'' = Table df"
  define m1 where "m1 = (initial_metrics aid now)\<lparr>total_citations := df_len df, has_citations := True\<rparr>"
  define m2 where "m2 = read_no_citations (results_dir ''no_citations.csv'') m1"
  define m3 where "m3 = m2\<lparr>total_statements := total_citations m2 + total_no_citations m2\<rparr>"
  define m4 where "m4 = read_matched (results_dir ''matched.csv'') m3"
  define m5 where "m5 = read_final (results_dir ''final.csv'') m4"
  define m6 where "m6 = read_web_final (results_dir ''no_citations_web_final.csv'') m5"
  have res: "calculate_file_metrics results_dir aid now = Some m6"
    by (simp add: calculate_file_metrics_def c Let_def m1_def m2_def m3_def m4_def m5_def m6_def)
  have k23: "set (missing_files m2) \<subseteq> set (missing_files m3)"
    by (simp add: m3_def)
  have k34: "set (missing_files m3) \<subseteq> set (missing_files m4)"
    unfolding m4_def by (rule read_matched_keeps)
  have k45: "set (missing_files m4) \<subseteq> set (missing_files m5)"
    unfolding m5_def by (rule read_final_keeps)
  have k56: "set (missing_files m5) \<subseteq> set (missing_files m6)"
    unfolding m6_def by (rule read_web_final_keeps)
  have a: "results_dir ''no_citations.csv'' = Missing \<or> results_dir ''no_citations.csv'' = Unreadable
      \<Longrightarrow> ''no_citations.csv'' \<in> set (missing_files m6)"
    using read_no_citations_adds [of "results_dir ''no_citations.csv''" m1] k23 k34 k45 k56
    unfolding m2_def [symmetric] by blast
  have b: "results_dir ''matched.csv'' = Missing \<or> results_dir ''matched.csv'' = Unreadable
      \<Longrightarrow> ''matched.csv'' \<in> set (missing_files m6)"
    using read_matched_adds [of "results_dir ''matched.csv''" m3] k45 k56
    unfolding m4_def [symmetric] by blast
  have c': "results_dir ''final.csv'' = Missing \<or> results_dir ''final.csv'' = Unreadable
      \<Longrightarrow> ''final.csv'' \<in> set (missing_files m6)"
    using read_final_adds [of "results_dir ''final.csv''" m4] k56
    unfolding m5_def [symmetric] by blast
  have d: "results_dir ''no_citations_web_final.csv'' = Missing
         \<or> results_dir ''no_citations_web_final.csv'' = Unreadable
      \<Longrightarrow> ''no_citations_web_final.csv'' \<in> set (missing_files m6)"
    using read_web_final_adds [of "results_dir ''no_citations_web_final.csv''" m5]
    unfolding m6_def [symmetric] by blast
  show ?thesis
    using res a b c' d by simp
qed

lemma calculate_file_metrics_None:
  "results_dir ''citations.csv'' = Missing \<or> results_dir ''citations.csv'' = Unreadable
   \<Longrightarrow> calculate_file_metrics results_dir aid now = None"
  by (auto simp: calculate_file_metrics_def)

text \<open>
  Claim C8. When \<open>citations.csv\<close> is absent, \<open>calculate_file_metrics\<close> returns no
  result. When it is present and read, a record is returned, and each of
  \<open>no_citations.csv\<close>, \<open>matched.csv\<close>, \<open>final.csv\<close> and
  \<open>no_citations_web_final.csv\<close> that is absent is in the \<open>missing_files\<close> of that
  record.
\<close>

theorem calculate_file_metrics_missing_files:
  "(results_dir ''citations.csv'' = Missing \<longrightarrow>
      calculate_file_metrics results_dir aid now = None) \<and>
   (\<forall>df. results_dir ''citations.csv'' = Table df \<longrightarrow>
      (\<exists>m. calculate_file_metrics results_dir aid now = Some m \<and>
         (\<forall>f \<in> set [''no_citations.csv'', ''matched.csv'', ''final.csv'',
                      ''no_citations_web_final.csv''].
            results_dir f = Missing \<longrightarrow> f \<in> set (missing_files m))))"
proof (intro conjI allI impI)
  assume "results_dir ''citations.csv'' = Missing"
  then show "calculate_file_metrics results_dir aid now = None"
    by (simp add: calculate_file_metrics_None)
next
  fix df
  assume "results_dir ''citations.csv'' = Table df"
  with calculate_file_metrics_Table [of results_dir df aid now]
  show "\<exists>m. calculate_file_metrics results_dir aid now = Some m \<and>
         (\<forall>f \<in> set [''no_citations.csv'', ''matched.csv'', ''final.csv'',
                      ''no_citations_web_final.csv''].
            results_dir f = Missing \<longrightarrow> f \<in> set (missing_files m))"
    by blast
qed

text \<open>An empty directory, and a directory that holds \<open>citations.csv\<close> only.\<close>

theorem calculate_file_metrics_missing_files_witness:
  "calculate_file_metrics (\<lambda>f. Missing) ''2401.00001'' ''now'' = None \<and>
   (\<exists>m. calculate_file_metrics
          (\<lambda>f. if f = ''citations.csv''
                then Table \<lparr>df_len = 2, df_columns = [''ID''], df_match_sum = None,
                            df_final_decision = []\<rparr>
                else Missing) ''2401.00001'' ''now'' = Some m \<and>
        ''no_citations.csv'' \<in> set (missing_files m) \<and> ''matched.csv'' \<in> set (missing_files m) \<and>
        ''final.csv'' \<in> set (missing_files m) \<and>
        ''no_citations_web_final.csv'' \<in> set (missing_files m))"
  using calculate_file_metrics_missing_files [of "\<lambda>f. Missing" "''2401.00001''" "''now''"]
        calculate_file_metrics_missing_files
          [of "\<lambda>f. if f = ''citations.csv''
                then Table \<lparr>df_len = 2, df_columns = [''ID''], df_match_sum = None,
                            df_final_decision = []\<rparr>
                else Missing" "''2401.00001''" "''now''"]
  by simp

text \<open>
  Claim C10. When \<open>citations.csv\<close> exists but \<open>pd.read_csv\<close> rejects it,
  \<open>calculate_file_metrics\<close> returns no result, as it does when the file is absent.
  When \<open>citations.csv\<close> is read, a record is returned, and an optional file that
  \<open>pd.read_csv\<close> rejects is in the \<open>missing_files\<close> of that record.
\<close>

theorem calculate_file_metrics_unreadable:
  "(results_dir ''citations.csv'' = Unreadable \<longrightarrow>
      calculate_file_metrics results_dir aid now = None \<and>
      calculate_file_metrics results_dir aid now =
        calculate_file_metrics (results_dir(''citations.csv'' := Missing)) aid now) \<and>
   (\<forall>df. results_dir ''citations.csv'' = Table df \<longrightarrow>
      (\<exists>m. calculate_file_metrics results_dir aid now = Some m \<and>
         (\<forall>f \<in> set [''no_citations.csv'', ''matched.csv'', ''final.csv'',
                      ''no_citations_web_final.csv''].
            results_dir f = Unreadable \<longrightarrow> f \<in> set (missing_files m))))"
proof (intro conjI allI impI)
  assume u: "results_dir ''citations.csv'' = Unreadable"
  then show n: "calculate_file_metrics results_dir aid now = None"
    by (simp add: calculate_file_metrics_None)
  have "calculate_file_metrics (results_dir(''citations.csv'' := Missing)) aid now = None"
    by (rule calculate_file_metrics_None) simp
  with n show "calculate_file_metrics results_dir aid now =
        calculate_file_metrics (results_dir(''citations.csv'' := Missing)) aid now"
    by simp
next
  fix df
  assume "results_dir ''citations.csv'' = Table df"
  with calculate_file_metrics_Table [of results_dir df aid now]
  show "\<exists>m. calculate_file_metrics results_dir aid now = Some m \<and>
         (\<forall>f \<in> set [''no_citations.csv'', ''matched.csv'', ''final.csv'',
                      ''no_citations_web_final.csv''].
            results_dir f = Unreadable \<longrightarrow> f \<in> set (missing_files m))"
    by blast
qed

text \<open>
  A directory of files that cannot be read, and one where only \<open>citations.csv\<close> can.
\<close>

theorem calculate_file_metrics_unreadable_witness:
  "calculate_file_metrics (\<lambda>f. Unreadable) ''2401.00001'' ''now'' = None \<and>
   (\<exists>m. calculate_file_metrics
          (\<lambda>f. if f = ''citations.csv''
                then Table \<lparr>df_len = 2, df_columns = [''ID''], df_match_sum = None,
                            df_final_decision = []\<rparr>
                else Unreadable) ''2401.00001'' ''now'' = Some m \<and>
        ''no_citations.csv'' \<in> set (missing_files m) \<and> ''matched.csv'' \<in> set (missing_files m) \<and>
        ''final.csv'' \<in> set (missing_files m) \<and>
        ''no_citations_web_final.csv'' \<in> set (missing_files m))"
  using calculate_file_metrics_unreadable [of "\<lambda>f. Unreadable" "''2401.00001''" "''now''"]
        calculate_file_metrics_unreadable
          [of "\<lambda>f. if f = ''citations.csv''
                then Table \<lparr>df_len = 2, df_columns = [''ID''], df_match_sum = None,
                            df_final_decision = []\<rparr>
                else Unreadable" "''2401.00001''" "''now''"]
  by simp

section \<open>Properties of the URL cache\<close>

lemma draw_id_fresh: "draw_id ids taken = Some c \<Longrightarrow> c \<in> set ids \<and> c \<notin> set taken"
  by (induction ids) (auto split: if_splits)

lemma draw_id_returns: "\<exists>c \<in> set ids. c \<notin> set taken \<Longrightarrow> \<exists>c. draw_id ids taken = Some c"
  by (induction ids) auto

lemma get_or_create_twice:
  assumes norm: "normalize_url urlparse u = Inr n"
    and fresh: "\<exists>c \<in> set ids. c \<notin> set (map random_id url_cache)"
  shows "\<exists>rid cache'.
           get_or_create_id_for_url urlparse ids u url_cache = Done (rid, cache') \<and>
           get_or_create_id_for_url urlparse ids' u cache' = Done (rid, cache') \<and>
           (if \<exists>row \<in> set url_cache. normalized_url row = n
            then cache' = url_cache
            else cache' = url_cache @ [\<lparr>url = u, normalized_url = n, random_id = rid\<rparr>]
                 \<and> rid \<notin> set (map random_id url_cache))"
proof (cases "filter (\<lambda>row. normalized_url row = n) url_cache")
  case Nil
  then have none: "\<not> (\<exists>row \<in> set url_cache. normalized_url row = n)"
    by (auto simp: filter_empty_conv)
  from draw_id_returns [OF fresh] obtain rid
    where d: "draw_id ids (map random_id url_cache) = Some rid"
    by blast
  let ?c = "url_cache @ [\<lparr>url = u, normalized_url = n, random_id = rid\<rparr>]"
  have first: "get_or_create_id_for_url urlparse ids u url_cache = Done (rid, ?c)"
    by (simp add: get_or_create_id_for_url_def norm Nil d)
  have "filter (\<lambda>row. normalized_url row = n) ?c = [\<lparr>url = u, normalized_url = n, random_id = rid\<rparr>]"
    using Nil by simp
  then have second: "get_or_create_id_for_url urlparse ids' u ?c = Done (rid, ?c)"
    by (simp add: get_or_create_id_for_url_def norm)
  from draw_id_fresh [OF d] have "rid \<notin> set (map random_id url_cache)"
    by simp
  with first second none show ?thesis
    by auto
next
  case (Cons existing rest)
  then have some: "\<exists>row \<in> set url_cache. normalized_url row = n"
    by (metis (mono_tags, lifting) filter_empty_conv list.distinct(1))
  have "get_or_create_id_for_url urlparse s u url_cache = Done (random_id existing, url_cache)" for s
    by (simp add: get_or_create_id_for_url_def norm Cons)
  with some show ?thesis
    by auto
qed

text \<open>
  Claim C5. For a URL that \<open>urlparse\<close> accepts and a supply of random ids that holds
  one not yet in the table, the first call returns an id and a table; a second call on
  that table, whatever ids it would draw, returns the same id and the same table. The
  table of the first call is the old one when it already has a row with the normalized
  URL, and otherwise the old one with one new row, which keeps the URL as given and
  has an id that no old row has.
\<close>

theorem get_or_create_id_for_url_idempotent:
  assumes "urlparse u = Some p"
    and "\<exists>c \<in> set supply. c \<notin> set (map random_id url_cache)"
  shows "\<exists>rid cache'.
           get_or_create_id_for_url urlparse supply u url_cache = Done (rid, cache') \<and>
           get_or_create_id_for_url urlparse supply' u cache' = Done (rid, cache') \<and>
           (if \<exists>row \<in> set url_cache. normalized_url row = scheme p @ ''://'' @ netloc p @ path p
            then cache' = url_cache
            else cache' = url_cache @ [\<lparr>url = u,
                                        normalized_url = scheme p @ ''://'' @ netloc p @ path p,
                                        random_id = rid\<rparr>]
                 \<and> rid \<notin> set (map random_id url_cache))"
proof -
  have "normalize_url urlparse u = Inr (scheme p @ ''://'' @ netloc p @ path p)"
    using assms(1) by (simp add: normalize_url_def)
  from get_or_create_twice [OF this assms(2)] show ?thesis .
qed

text \<open>
  A table with one row, a URL that is not in it, and a supply whose first id collides.
\<close>

theorem get_or_create_id_for_url_idempotent_witness:
  "get_or_create_id_for_url (\<lambda>u. Some \<lparr>scheme = ''https'', netloc = ''a.org'', path = ''/p''\<rparr>)
      [''id00000001'', ''id00000002''] ''https://a.org/p#top''
      [\<lparr>url = ''http://b.org/'', normalized_url = ''http://b.org/'', random_id = ''id00000001''\<rparr>]
   = Done (''id00000002'',
       [\<lparr>url = ''http://b.org/'', normalized_url = ''http://b.org/'', random_id = ''id00000001''\<rparr>,
        \<lparr>url = ''https://a.org/p#top'', normalized_url = ''https://a.org/p'',
         random_id = ''id00000002''\<rparr>])
   \<and> get_or_create_id_for_url (\<lambda>u. Some \<lparr>scheme = ''https'', netloc = ''a.org'', path = ''/p''\<rparr>)
      [] ''https://a.org/p#top''
      [\<lparr>url = ''http://b.org/'', normalized_url = ''http://b.org/'', random_id = ''id00000001''\<rparr>,
       \<lparr>url = ''https://a.org/p#top'', normalized_url = ''https://a.org/p'',
        random_id = ''id00000002''\<rparr>]
   = Done (''id00000002'',
       [\<lparr>url = ''http://b.org/'', normalized_url = ''http://b.org/'', random_id = ''id00000001''\<rparr>,
        \<lparr>url = ''https://a.org/p#top'', normalized_url = ''https://a.org/p'',
         random_id = ''id00000002''\<rparr>])"
  using get_or_create_id_for_url_idempotent
    [of "\<lambda>u. Some \<lparr>scheme = ''https'', netloc = ''a.org'', path = ''/p''\<rparr>" "''https://a.org/p#top''"
        "\<lparr>scheme = ''https'', netloc = ''a.org'', path = ''/p''\<rparr>"
        "[''id00000001'', ''id00000002'']"
        "[\<lparr>url = ''http://b.org/'', normalized_url = ''http://b.org/'', random_id = ''id00000001''\<rparr>]"
        "[]"]
  by (simp add: get_or_create_id_for_url_def normalize_url_def)

section \<open>Properties of the task construction\<close>

lemma row_tasks_keys:
  "set (map task_key (row_tasks prompt_of fill available processed start_idx (idx, row))) =
     (if idx < start_idx then {}
      else case prompt_of row of
             NaN \<Rightarrow> {}
           | Cell p \<Rightarrow> if strip p = [] then {}
                       else {(idx, name) | name. name \<in> fst ` set available \<and> (idx, name) \<notin> set processed})"
  by (auto simp: row_tasks_def task_key_def image_iff split: cell.splits) force+

lemma available_models_names:
  "fst ` set (concat (map (\<lambda>(name, model). case model of None \<Rightarrow> [] | Some m \<Rightarrow> [(name, m)]) models))
   = {name. \<exists>m. (name, Some m) \<in> set models}"
proof -
  have "set (concat (map (\<lambda>(name, model). case model of None \<Rightarrow> [] | Some m \<Rightarrow> [(name, m)]) models))
        = {(name, m). (name, Some m) \<in> set models}"
    by (auto split: option.splits)
  then show ?thesis
    by force
qed

text \<open>
  The tasks built from a set of processed pairs: none of these pairs, and every other
  pair of a row at or after \<open>start_idx\<close> with a prompt that is not blank and of a model
  that was built.
\<close>

lemma tasks_from_processed:
  fixes models :: "(string \<times> 'm option) list"
  defines "available \<equiv>
    concat (map (\<lambda>(name, model). case model of None \<Rightarrow> [] | Some m \<Rightarrow> [(name, m)]) models)"
  defines "tasks \<equiv> \<lambda>prompt_of fill processed start_idx df.
    concat (map (row_tasks prompt_of fill available processed start_idx) df)"
  shows "\<forall>k \<in> set processed. k \<notin> set (map task_key (tasks prompt_of fill processed start_idx df))"
    and "\<forall>idx row p name m.
           (idx, row) \<in> set df \<and> start_idx \<le> idx \<and> prompt_of row = Cell p \<and> strip p \<noteq> [] \<and>
           (name, Some m) \<in> set models \<and> (idx, name) \<notin> set processed
           \<longrightarrow> (idx, name) \<in> set (map task_key (tasks prompt_of fill processed start_idx df))"
proof -
  have keys: "set (map task_key (tasks prompt_of fill processed start_idx df)) =
      (\<Union>ir \<in> set df. set (map task_key (row_tasks prompt_of fill available processed start_idx ir)))"
    by (simp add: tasks_def map_concat comp_def)
  show "\<forall>k \<in> set processed. k \<notin> set (map task_key (tasks prompt_of fill processed start_idx df))"
  proof
    fix k assume k: "k \<in> set processed"
    show "k \<notin> set (map task_key (tasks prompt_of fill processed start_idx df))"
    proof
      assume "k \<in> set (map task_key (tasks prompt_of fill processed start_idx df))"
      then obtain i r where "(i, r) \<in> set df"
        and "k \<in> set (map task_key (row_tasks prompt_of fill available processed start_idx (i, r)))"
        unfolding keys by auto
      then show False
        using k unfolding row_tasks_keys by (auto split: if_splits cell.splits)
    qed
  qed
  have "(idx, name) \<in> set (map task_key (tasks prompt_of fill processed start_idx df))"
    if "(idx, row) \<in> set df" "start_idx \<le> idx" "prompt_of row = Cell p" "strip p \<noteq> []"
       "(name, Some m) \<in> set models" "(idx, name) \<notin> set processed" for idx row p name m
  proof -
    have "name \<in> fst ` set available"
      unfolding available_def available_models_names using that(5) by blast
    then have "(idx, name) \<in> set (map task_key (row_tasks prompt_of fill available processed
                                                   start_idx (idx, row)))"
      unfolding row_tasks_keys using that by auto
    then show ?thesis
      unfolding keys using that(1) by blast
  qed
  then show "\<forall>idx row p name m.
           (idx, row) \<in> set df \<and> start_idx \<le> idx \<and> prompt_of row = Cell p \<and> strip p \<noteq> [] \<and>
           (name, Some m) \<in> set models \<and> (idx, name) \<notin> set processed
           \<longrightarrow> (idx, name) \<in> set (map task_key (tasks prompt_of fill processed start_idx df))"
    by blast
qed

lemma batch_infer_tasks_read:
  "0 < start_idx \<Longrightarrow> load_processed ls = Inr processed \<Longrightarrow>
   batch_infer_tasks prompt_of fill df models (Some ls) start_idx =
     Inr (concat (map (row_tasks prompt_of fill
            (concat (map (\<lambda>(name, model). case model of None \<Rightarrow> [] | Some m \<Rightarrow> [(name, m)]) models))
            processed start_idx) df))"
  by (simp add: batch_infer_tasks_def Let_def)

lemma batch_infer_tasks_not_read:
  "start_idx \<le> 0 \<or> output_file = None \<Longrightarrow>
   batch_infer_tasks prompt_of fill df models output_file start_idx =
     Inr (concat (map (row_tasks prompt_of fill
            (concat (map (\<lambda>(name, model). case model of None \<Rightarrow> [] | Some m \<Rightarrow> [(name, m)]) models))
            [] start_idx) df))"
  by (auto simp: batch_infer_tasks_def Let_def split: option.splits)

text \<open>
  Claim C3, as amended. The existing output file is read only when \<open>start_idx > 0\<close>.
  In a run with \<open>start_idx > 0\<close> on an output file whose lines parse, no pair
  \<open>(row_index, model_name)\<close> recorded in the file is enqueued, every pair that is not
  recorded is enqueued when its row is at or after \<open>start_idx\<close>, has a prompt that is
  not blank, and its model was built, and the file is opened for appending. In a run
  with \<open>start_idx \<le> 0\<close> the tasks are those of a run without an output file, whatever
  the file holds: every such pair is enqueued, recorded or not, and the file is opened for
  writing from the start. In both cases the file is opened only when there is a task.
\<close>

theorem batch_infer_tasks_resume:
  "(0 < start_idx \<and> load_processed ls = Inr processed \<longrightarrow>
      (\<exists>tasks. batch_infer_tasks prompt_of fill df models (Some ls) start_idx = Inr tasks \<and>
         (\<forall>k \<in> set processed. k \<notin> set (map task_key tasks)) \<and>
         (\<forall>idx row p name m.
            (idx, row) \<in> set df \<and> start_idx \<le> idx \<and> prompt_of row = Cell p \<and> strip p \<noteq> [] \<and>
            (name, Some m) \<in> set models \<and> (idx, name) \<notin> set processed
            \<longrightarrow> (idx, name) \<in> set (map task_key tasks)) \<and>
         opened_as (Inr tasks) start_idx = (if tasks = [] then None else Some Append))) \<and>
   (start_idx \<le> 0 \<longrightarrow>
      (\<exists>tasks. batch_infer_tasks prompt_of fill df models (Some ls) start_idx = Inr tasks \<and>
         batch_infer_tasks prompt_of fill df models None start_idx = Inr tasks \<and>
         (\<forall>idx row p name m.
            (idx, row) \<in> set df \<and> start_idx \<le> idx \<and> prompt_of row = Cell p \<and> strip p \<noteq> [] \<and>
            (name, Some m) \<in> set models
            \<longrightarrow> (idx, name) \<in> set (map task_key tasks)) \<and>
         opened_as (Inr tasks) start_idx = (if tasks = [] then None else Some Overwrite)))"
proof (intro conjI impI)
  assume h: "0 < start_idx \<and> load_processed ls = Inr processed"
  let ?av = "concat (map (\<lambda>(name, model). case model of None \<Rightarrow> [] | Some m \<Rightarrow> [(name, m)]) models)"
  let ?tasks = "concat (map (row_tasks prompt_of fill ?av processed start_idx) df)"
  have res: "batch_infer_tasks prompt_of fill df models (Some ls) start_idx = Inr ?tasks"
    using h by (simp add: batch_infer_tasks_read)
  have no_dup: "\<forall>k \<in> set processed. k \<notin> set (map task_key ?tasks)"
    by (rule tasks_from_processed(1))
  have still: "\<forall>idx row p name m.
            (idx, row) \<in> set df \<and> start_idx \<le> idx \<and> prompt_of row = Cell p \<and> strip p \<noteq> [] \<and>
            (name, Some m) \<in> set models \<and> (idx, name) \<notin> set processed
            \<longrightarrow> (idx, name) \<in> set (map task_key ?tasks)"
    by (rule tasks_from_processed(2))
  have mode: "opened_as (Inr ?tasks) start_idx = (if ?tasks = [] then None else Some Append)"
    using h by (simp add: opened_as_def open_mode_def)
  show "\<exists>tasks. batch_infer_tasks prompt_of fill df models (Some ls) start_idx = Inr tasks \<and>
         (\<forall>k \<in> set processed. k \<notin> set (map task_key tasks)) \<and>
         (\<forall>idx row p name m.
            (idx, row) \<in> set df \<and> start_idx \<le> idx \<and> prompt_of row = Cell p \<and> strip p \<noteq> [] \<and>
            (name, Some m) \<in> set models \<and> (idx, name) \<notin> set processed
            \<longrightarrow> (idx, name) \<in> set (map task_key tasks)) \<and>
         opened_as (Inr tasks) start_idx = (if tasks = [] then None else Some Append)"
    using res no_dup still mode by blast
next
  assume h: "start_idx \<le> 0"
  let ?av = "concat (map (\<lambda>(name, model). case model of None \<Rightarrow> [] | Some m \<Rightarrow> [(name, m)]) models)"
  let ?tasks = "concat (map (row_tasks prompt_of fill ?av [] start_idx) df)"
  have res: "batch_infer_tasks prompt_of fill df models (Some ls) start_idx = Inr ?tasks"
    "batch_infer_tasks prompt_of fill df models None start_idx = Inr ?tasks"
    using h by (simp_all add: batch_infer_tasks_not_read)
  have all: "\<forall>idx row p name m.
            (idx, row) \<in> set df \<and> start_idx \<le> idx \<and> prompt_of row = Cell p \<and> strip p \<noteq> [] \<and>
            (name, Some m) \<in> set models
            \<longrightarrow> (idx, name) \<in> set (map task_key ?tasks)"
    using tasks_from_processed(2) [where processed = "[]" and df = df and start_idx = start_idx
        and prompt_of = prompt_of and models = models and fill = fill]
    by simp
  have mode: "opened_as (Inr ?tasks) start_idx = (if ?tasks = [] then None else Some Overwrite)"
    using h by (simp add: opened_as_def open_mode_def)
  show "\<exists>tasks. batch_infer_tasks prompt_of fill df models (Some ls) start_idx = Inr tasks \<and>
         batch_infer_tasks prompt_of fill df models None start_idx = Inr tasks \<and>
         (\<forall>idx row p name m.
            (idx, row) \<in> set df \<and> start_idx \<le> idx \<and> prompt_of row = Cell p \<and> strip p \<noteq> [] \<and>
            (name, Some m) \<in> set models
            \<longrightarrow> (idx, name) \<in> set (map task_key tasks)) \<and>
         opened_as (Inr tasks) start_idx = (if tasks = [] then None else Some Overwrite)"
    using res all mode by blast
qed

text \<open>
  Four rows, of which one has an ideographic space for a prompt and one has none, two
  models, and a file that records \<open>(3, M)\<close>: with \<open>start_idx = 3\<close> only
  \<open>(3, other_model)\<close> is enqueued and the file is appended to; with \<open>start_idx = 0\<close>
  the two rows with a prompt are enqueued for both models and the file is written anew.
\<close>

theorem batch_infer_tasks_resume_witness:
  "enqueued (batch_infer_tasks (\<lambda>r. r) no_template
       [(0, Cell (ustr ''p0'')), (1, Cell [0x3000]), (2, NaN), (3, Cell (ustr ''p3''))]
       [(''M'', Some (1::nat)), (''other_model'', Some 2)]
       (Some [Record 3 ''M'']) 3) = [(3, ''other_model'')]
   \<and> opened_as (batch_infer_tasks (\<lambda>r. r) no_template
       [(0, Cell (ustr ''p0'')), (1, Cell [0x3000]), (2, NaN), (3, Cell (ustr ''p3''))]
       [(''M'', Some (1::nat)), (''other_model'', Some 2)]
       (Some [Record 3 ''M'']) 3) 3 = Some Append
   \<and> enqueued (batch_infer_tasks (\<lambda>r. r) no_template
       [(0, Cell (ustr ''p0'')), (1, Cell [0x3000]), (2, NaN), (3, Cell (ustr ''p3''))]
       [(''M'', Some (1::nat)), (''other_model'', Some 2)]
       (Some [Record 3 ''M'']) 0)
     = [(0, ''M''), (0, ''other_model''), (3, ''M''), (3, ''other_model'')]
   \<and> opened_as (batch_infer_tasks (\<lambda>r. r) no_template
       [(0, Cell (ustr ''p0'')), (1, Cell [0x3000]), (2, NaN), (3, Cell (ustr ''p3''))]
       [(''M'', Some (1::nat)), (''other_model'', Some 2)]
       (Some [Record 3 ''M'']) 0) 0 = Some Overwrite"
proof -
  let ?df = "[(0, Cell (ustr ''p0'')), (1, Cell [0x3000]), (2, NaN), (3, Cell (ustr ''p3''))]"
  let ?models = "[(''M'', Some (1::nat)), (''other_model'', Some 2)]"
  have hyp: "(0::int) < 3 \<and> load_processed [Record 3 ''M''] = Inr [(3, ''M'')]" "(0::int) \<le> 0"
    by simp_all
  note thm3 = batch_infer_tasks_resume
    [of 3 "[Record 3 ''M'']" "[(3, ''M'')]" "\<lambda>r. r" no_template ?df ?models]
  note thm0 = batch_infer_tasks_resume
    [of 0 "[Record 3 ''M'']" "[]" "\<lambda>r. r" no_template ?df ?models]
  have a: "enqueued (batch_infer_tasks (\<lambda>r. r) no_template ?df ?models (Some [Record 3 ''M'']) 3)
           = [(3, ''other_model'')]"
    by code_simp
  have b: "enqueued (batch_infer_tasks (\<lambda>r. r) no_template ?df ?models (Some [Record 3 ''M'']) 0)
           = [(0, ''M''), (0, ''other_model''), (3, ''M''), (3, ''other_model'')]"
    by code_simp
  from thm3 hyp(1) a have c: "opened_as (batch_infer_tasks (\<lambda>r. r) no_template ?df ?models
       (Some [Record 3 ''M'']) 3) 3 = Some Append"
    by (auto simp: enqueued_def)
  from thm0 hyp(2) b have d: "opened_as (batch_infer_tasks (\<lambda>r. r) no_template ?df ?models
       (Some [Record 3 ''M'']) 0) 0 = Some Overwrite"
    by (auto simp: enqueued_def)
  from a b c d show ?thesis
    by blast
qed

text \<open>
  The claim as stated has \<open>start_idx = 0\<close>: there the file is not read, and the pair
  \<open>(3, M)\<close> it records is enqueued again.
\<close>

theorem batch_infer_tasks_start_zero_counterexample:
  "enqueued (batch_infer_tasks id no_template
       [(0, Cell (ustr ''p0'')), (1, Cell (ustr ''p1'')), (2, NaN), (3, Cell (ustr ''p3''))]
       [(''M'', Some (1::nat)), (''other_model'', Some 2)]
       (Some [Record 3 ''M'']) 0)
   = [(0, ''M''), (0, ''other_model''), (1, ''M''), (1, ''other_model''),
      (3, ''M''), (3, ''other_model'')]"
  by code_simp

section \<open>Properties of the transcript extractor\<close>

lemma has_role_JObj: "has_role (JObj m) r = Inr (role_is r m)"
  by (simp add: has_role_def role_is_def)

lemma get_or_empty_JObj: "get_or_empty (JObj m) ''content'' = Inr (content_of m)"
  by (simp add: get_or_empty_def content_of_def split: option.splits)

lemma first_user_content_objects:
  "first_user_content (map JObj msgs) = Inr (spec_prompt msgs)"
proof (induction msgs)
  case Nil
  show ?case by (simp add: spec_prompt_def)
next
  case (Cons m ms)
  then show ?case
    by (simp add: has_role_JObj get_or_empty_JObj spec_prompt_def)
qed

lemma scan_roles_objects: "scan_roles (map JObj msgs) = Inr ()"
  by (induction msgs) (simp_all add: has_role_JObj)

text \<open>A run that already has two messages is the first long run, whatever follows.\<close>

lemma long_run_found:
  "2 \<le> length run \<Longrightarrow>
   \<exists>more. List.find (\<lambda>r. 2 \<le> length r) (runs_from run ms) = Some (run @ more)"
proof (induction ms arbitrary: run)
  case Nil
  then show ?case by auto
next
  case (Cons m ms)
  show ?case
  proof (cases "role_is ''assistant'' m")
    case True
    from Cons.prems have "2 \<le> length (run @ [m])" by simp
    from Cons.IH [OF this] True show ?thesis by auto
  next
    case False
    with Cons.prems show ?thesis by auto
  qed
qed

lemma second_of_long_run:
  assumes "2 \<le> length run"
  shows "map_option (\<lambda>r. r ! 1) (List.find (\<lambda>r. 2 \<le> length r) (runs_from run ms)) = Some (run ! 1)"
proof -
  from long_run_found [OF assms] obtain more
    where "List.find (\<lambda>r. 2 \<le> length r) (runs_from run ms) = Some (run @ more)"
    by blast
  then show ?thesis
    using assms by (simp add: nth_append)
qed

lemma consecutive_runs:
  "consecutive_assistants (map JObj ms)
     = Inr (map_option (\<lambda>r. JObj (r ! 1)) (List.find (\<lambda>r. 2 \<le> length r) (runs_from [] ms)))
   \<and> (\<forall>x. role_is ''assistant'' x \<longrightarrow>
        consecutive_assistants (JObj x # map JObj ms)
          = Inr (map_option (\<lambda>r. JObj (r ! 1))
                   (List.find (\<lambda>r. 2 \<le> length r) (runs_from [x] ms))))"
proof (induction ms)
  case Nil
  show ?case by simp
next
  case (Cons m ms)
  note ih0 = Cons.IH [THEN conjunct1]
  note ih1 = Cons.IH [THEN conjunct2, rule_format]
  have p0: "consecutive_assistants (map JObj (m # ms))
     = Inr (map_option (\<lambda>r. JObj (r ! 1)) (List.find (\<lambda>r. 2 \<le> length r) (runs_from [] (m # ms))))"
  proof (cases "role_is ''assistant'' m")
    case True
    have "runs_from [] (m # ms) = runs_from [m] ms"
      using True by simp
    with ih1 [OF True] show ?thesis by simp
  next
    case False
    have r: "runs_from [] (m # ms) = runs_from [] ms"
      using False by simp
    have "consecutive_assistants (JObj m # map JObj ms) = consecutive_assistants (map JObj ms)"
    proof (cases ms)
      case Nil
      then show ?thesis by simp
    next
      case (Cons b rest)
      then show ?thesis
        using False by (simp add: has_role_JObj)
    qed
    with ih0 r show ?thesis by simp
  qed
  have p1: "consecutive_assistants (JObj x # map JObj (m # ms))
          = Inr (map_option (\<lambda>r. JObj (r ! 1))
                   (List.find (\<lambda>r. 2 \<le> length r) (runs_from [x] (m # ms))))"
    if x: "role_is ''assistant'' x" for x
  proof (cases "role_is ''assistant'' m")
    case True
    have r: "runs_from [x] (m # ms) = runs_from [x, m] ms"
      using True by simp
    have "map_option (\<lambda>r. r ! 1) (List.find (\<lambda>r. 2 \<le> length r) (runs_from [x, m] ms)) = Some ([x, m] ! 1)"
      by (rule second_of_long_run) simp
    then have f: "map_option (\<lambda>r. JObj (r ! 1)) (List.find (\<lambda>r. 2 \<le> length r) (runs_from [x, m] ms))
        = Some (JObj m)"
      by (cases "List.find (\<lambda>r. 2 \<le> length r) (runs_from [x, m] ms)") auto
    have lhs: "consecutive_assistants (JObj x # map JObj (m # ms)) = Inr (Some (JObj m))"
      using True x by (simp add: has_role_JObj)
    show ?thesis
      by (simp only: lhs r f)
  next
    case False
    have r: "List.find (\<lambda>r. 2 \<le> length r) (runs_from [x] (m # ms))
           = List.find (\<lambda>r. 2 \<le> length r) (runs_from [] (m # ms))"
      using False by simp
    have lhs: "consecutive_assistants (JObj x # map JObj (m # ms))
        = consecutive_assistants (map JObj (m # ms))"
      using False x by (simp add: has_role_JObj)
    show ?thesis
      by (simp only: lhs r p0)
  qed
  from p0 p1 show ?case by blast
qed

text \<open>
  Claim C7. For a transcript whose \<open>messages\<close> entry is an array of objects, the
  extractor returns a result whose \<open>prompt\<close> is the content of the first message of
  role \<open>user\<close> and whose \<open>answer\<close> is the content of the second message of the
  first run of two or more consecutive messages of role \<open>assistant\<close>, the empty
  string when there is no such run.
\<close>

theorem process_openai_json_prompt_answer:
  assumes "dict_get data ''messages'' = Some (JArr (map JObj msgs))"
  shows "process_openai_json (Inr (JObj data)) =
           Some \<lparr>prompt = spec_prompt msgs, answer = spec_answer msgs,
                 activity = (case dict_get data ''activity'' of None \<Rightarrow> JStr [] | Some v \<Rightarrow> v),
                 reference = (case dict_get data ''reference'' of None \<Rightarrow> JStr [] | Some v \<Rightarrow> v)\<rparr>"
proof -
  define pair where
    "pair = map_option (\<lambda>r. JObj (r ! 1)) (List.find (\<lambda>r. 2 \<le> length r) (runs_from [] msgs))"
  have g: "get_or_empty (JObj data) k = Inr (case dict_get data k of None \<Rightarrow> JStr [] | Some v \<Rightarrow> v)" for k
    by (simp add: get_or_empty_def split: option.splits)
  have c: "consecutive_assistants (map JObj msgs) = Inr pair"
    unfolding pair_def using consecutive_runs [of msgs] by blast
  have d: "(case pair of None \<Rightarrow> Inr (JStr []) | Some second \<Rightarrow> get_or_empty second ''content'')
           = Inr (spec_answer msgs)"
    unfolding pair_def spec_answer_def assistant_runs_def
    by (cases "List.find (\<lambda>r. 2 \<le> length r) (runs_from [] msgs)") (simp_all add: get_or_empty_JObj)
  have "extract_transcript (JObj data) =
          Inr \<lparr>prompt = spec_prompt msgs, answer = spec_answer msgs,
               activity = (case dict_get data ''activity'' of None \<Rightarrow> JStr [] | Some v \<Rightarrow> v),
               reference = (case dict_get data ''reference'' of None \<Rightarrow> JStr [] | Some v \<Rightarrow> v)\<rparr>"
    unfolding extract_transcript_def
    by (simp add: assms first_user_content_objects scan_roles_objects c d g)
  then show ?thesis
    by (simp add: process_openai_json_def)
qed

text \<open>
  A transcript with a single assistant message first and a run of three later.
\<close>

theorem process_openai_json_prompt_answer_witness:
  "process_openai_json (Inr (JObj
      [(''messages'', JArr (map JObj
         [[(''role'', JStr ''system''), (''content'', JStr ''s'')],
          [(''role'', JStr ''user''), (''content'', JStr ''question'')],
          [(''role'', JStr ''assistant''), (''content'', JStr ''a1'')],
          [(''role'', JStr ''user''), (''content'', JStr ''more'')],
          [(''role'', JStr ''assistant''), (''content'', JStr ''a2'')],
          [(''role'', JStr ''assistant''), (''content'', JStr ''a3'')],
          [(''role'', JStr ''assistant''), (''content'', JStr ''a4'')]])),
       (''activity'', JStr ''act'')]))
   = Some \<lparr>prompt = JStr ''question'', answer = JStr ''a3'', activity = JStr ''act'',
           reference = JStr []\<rparr>"
  using process_openai_json_prompt_answer
    [of "[(''messages'', JArr (map JObj
         [[(''role'', JStr ''system''), (''content'', JStr ''s'')],
          [(''role'', JStr ''user''), (''content'', JStr ''question'')],
          [(''role'', JStr ''assistant''), (''content'', JStr ''a1'')],
          [(''role'', JStr ''user''), (''content'', JStr ''more'')],
          [(''role'', JStr ''assistant''), (''content'', JStr ''a2'')],
          [(''role'', JStr ''assistant''), (''content'', JStr ''a3'')],
          [(''role'', JStr ''assistant''), (''content'', JStr ''a4'')]])),
       (''activity'', JStr ''act'')]"
        "[[(''role'', JStr ''system''), (''content'', JStr ''s'')],
          [(''role'', JStr ''user''), (''content'', JStr ''question'')],
          [(''role'', JStr ''assistant''), (''content'', JStr ''a1'')],
          [(''role'', JStr ''user''), (''content'', JStr ''more'')],
          [(''role'', JStr ''assistant''), (''content'', JStr ''a2'')],
          [(''role'', JStr ''assistant''), (''content'', JStr ''a3'')],
          [(''role'', JStr ''assistant''), (''content'', JStr ''a4'')]]"]
  by (simp add: dict_get_def spec_prompt_def spec_answer_def assistant_runs_def role_is_def
        content_of_def)

section \<open>Properties of the web-search client\<close>








section \<open>Properties of the retry policy of the inference harness\<close>

text \<open>
  A message that contains \<open>exceed\<close> or \<open>maximum\<close>, in whatever case, is classified
  as a rate-limit error.
\<close>

lemma is_rate_limit_error_keywords:
  "contains (lower error_message) ''exceed'' \<or> contains (lower error_message) ''maximum''
   \<Longrightarrow> is_rate_limit_error error_message"
  by (auto simp: is_rate_limit_error_def rate_limit_indicators_def Let_def)

lemma lower_append: "lower (xs @ ys) = lower xs @ lower ys"
  by (simp add: lower_def)

lemma is_rate_limit_error_any_case:
  assumes "lower mid = ''exceed'' \<or> lower mid = ''maximum''"
  shows "is_rate_limit_error (before @ mid @ after)"
proof -
  have "contains (lower (before @ mid @ after)) (lower mid)"
    unfolding contains_def lower_append by (rule sublist_appendI)
  with assms have "contains (lower (before @ mid @ after)) ''exceed''
      \<or> contains (lower (before @ mid @ after)) ''maximum''"
    by metis
  then show ?thesis
    by (rule is_rate_limit_error_keywords)
qed

text \<open>
  A failure classified as a rate-limit error is retried whatever \<open>max_retries\<close> is,
  as long as fewer than 1024 retries were made; the next one fails in
  \<open>exponential_backoff\<close>.
\<close>

lemma retry_rate_limited_step:
  assumes "is_rate_limit_error msg" and "attempt < 1024"
  shows "\<exists>acc'. infer_single_with_retry max_retries attempt acc (Throws msg r # rest)
           = infer_single_with_retry max_retries (attempt + 1) acc' rest"
proof -
  define delay where "delay = min (2 * 2 ^ attempt) 120 + min (2 * 2 ^ attempt) 120 * (1 / 10) * r"
  have "exponential_backoff (attempt + 1 - 1) 2 120 r = Inr delay"
    using assms(2) by (simp add: exponential_backoff_def Let_def delay_def)
  then have "infer_single_with_retry max_retries attempt acc (Throws msg r # rest)
           = infer_single_with_retry max_retries (attempt + 1) (acc + delay) rest"
    using assms(1) by (simp add: Let_def)
  then show ?thesis
    by blast
qed

lemma retry_rate_limited_run:
  assumes "is_rate_limit_error msg"
  shows "attempt + n \<le> 1024 \<Longrightarrow>
         \<exists>acc'. infer_single_with_retry max_retries attempt acc (replicate n (Throws msg r) @ rest)
           = infer_single_with_retry max_retries (attempt + n) acc' rest"
proof (induction n arbitrary: attempt acc)
  case 0
  show ?case by auto
next
  case (Suc n)
  then have lt: "attempt < 1024" and le: "(attempt + 1) + n \<le> 1024"
    by simp_all
  from retry_rate_limited_step [OF assms lt] obtain acc1 where
    s: "infer_single_with_retry max_retries attempt acc (Throws msg r # replicate n (Throws msg r) @ rest)
        = infer_single_with_retry max_retries (attempt + 1) acc1 (replicate n (Throws msg r) @ rest)"
    by blast
  from Suc.IH [OF le] obtain acc' where
    "infer_single_with_retry max_retries (attempt + 1) acc1 (replicate n (Throws msg r) @ rest)
     = infer_single_with_retry max_retries (attempt + 1 + n) acc' rest"
    by blast
  with s show ?case
    by (auto simp: add.commute add.left_commute)
qed

lemma retry_overflow:
  assumes "is_rate_limit_error msg" and "1024 \<le> attempt"
  shows "infer_single_with_retry max_retries attempt acc (Throws msg r # rest) = Fails OverflowError"
  using assms by (simp add: exponential_backoff_def Let_def)

lemma context_length_message: "is_rate_limit_error ''maximum context length exceeded''"
  by code_simp

text \<open>
  Claim C9. The claim: a message that contains \<open>exceed\<close> or \<open>maximum\<close> is
  classified as a rate-limit error, although it has none of the indicators of
  throttling, and is then retried without bound. For a model that answers every
  request with \<open>maximum context length exceeded\<close> and \<open>max_retries = 3\<close>: the
  message is classified as a rate-limit error and has none of the four throttling
  indicators; after 1024 failures the call is still retrying; the failure after that
  ends the call with \<open>OverflowError\<close>.
\<close>

theorem infer_single_with_retry_overflow:
  "is_rate_limit_error ''maximum context length exceeded'' \<and>
   \<not> list_ex (contains (lower ''maximum context length exceeded''))
       [''rate limit'', ''429'', ''too many requests'', ''quota exceeded''] \<and>
   infer_single_with_retry 3 0 0 (replicate 1024 (Throws ''maximum context length exceeded'' 0))
     = Pending \<and>
   infer_single_with_retry 3 0 0 (replicate 1025 (Throws ''maximum context length exceeded'' 0))
     = Fails OverflowError"
proof -
  let ?t = "Throws ''maximum context length exceeded'' 0"
  note m = context_length_message
  from retry_rate_limited_run [OF m, of 0 1024 3 0 0 "[]"] obtain d where
    "infer_single_with_retry 3 0 0 (replicate 1024 ?t @ []) = infer_single_with_retry 3 (0 + 1024) d []"
    by auto
  then have a: "infer_single_with_retry 3 0 0 (replicate 1024 ?t) = Pending"
    by simp
  from retry_rate_limited_run [OF m, of 0 1024 3 0 0 "[?t]"] obtain d' where
    "infer_single_with_retry 3 0 0 (replicate 1024 ?t @ [?t]) = infer_single_with_retry 3 (0 + 1024) d' [?t]"
    by auto
  moreover have "replicate 1025 ?t = replicate 1024 ?t @ [?t]"
  proof -
    have "replicate 1025 ?t = replicate (1024 + 1) ?t"
      by simp
    also have "\<dots> = replicate 1024 ?t @ replicate 1 ?t"
      by (rule replicate_add)
    also have "\<dots> = replicate 1024 ?t @ [?t]"
      by simp
    finally show ?thesis .
  qed
  ultimately have b: "infer_single_with_retry 3 0 0 (replicate 1025 ?t) = Fails OverflowError"
    using retry_overflow [OF m, of 1024 3 _ 0 "[]"] by simp
  have n: "\<not> list_ex (contains (lower ''maximum context length exceeded''))
       [''rate limit'', ''429'', ''too many requests'', ''quota exceeded'']"
    by code_simp
  from m n a b show ?thesis by blast
qed

section \<open>Properties of the reference extractor\<close>

text \<open>Without a text node that holds a marker there is no result.\<close>

lemma extract_reference_structured_no_marker:
  "find_source_element (parse reference_html) = None
   \<Longrightarrow> extract_reference_structured urlparse parse reference_html = Inr None"
  by (simp add: extract_reference_structured_def Let_def)

text \<open>
  The count of a domain-summary entry is read from the digits at the end of the text of
  the link, whatever their script, and is 1 when there is none.
\<close>

lemma extract_domain_info_simple_count:
  "extract_domain_info_simple link index = Inr (Some info) \<Longrightarrow>
   dom_count info = (if trailing_digits (get_text link) = [] then 1
                     else parse_nat (trailing_digits (get_text link)))"
  by (auto simp: extract_domain_info_simple_def Let_def split: option.splits if_splits)

text \<open>
  Claim C6. The claim: a fragment with 3 links before the marker and 2 after it gives
  exactly 3 detailed references and 2 domain-summary entries. The fragment below has
  three links, the text \<open>All Sources\<close>, and two links, the first of which is written
  exactly as the first link of the fragment. The position of a link is taken as the
  first occurrence of its serialisation, which for that link is 0: the result has 4
  detailed references and 1 domain-summary entry. The parser is the one that maps the
  serialised fragment to its tree, and \<open>up\<close> is any \<open>urlparse\<close> that does not raise.
\<close>

theorem extract_reference_structured_duplicate_link:
  "extract_reference_structured (\<lambda>href. Some (up href))
     (\<lambda>reference_html.
        [Elem (ustr ''a'') [(ustr ''href'', ustr ''https://a.example/'')] [Text (ustr ''a.example'')],
         Elem (ustr ''a'') [(ustr ''href'', ustr ''https://b.example/2'')] [Text (ustr ''B'')],
         Elem (ustr ''a'') [(ustr ''href'', ustr ''https://c.example/3'')] [Text (ustr ''C'')],
         Text (ustr ''All Sources''),
         Elem (ustr ''a'') [(ustr ''href'', ustr ''https://a.example/'')] [Text (ustr ''a.example'')],
         Elem (ustr ''a'') [(ustr ''href'', ustr ''https://b.example/'')] [Text (ustr ''b.example2'')]])
     (concat (map render
        [Elem (ustr ''a'') [(ustr ''href'', ustr ''https://a.example/'')] [Text (ustr ''a.example'')],
         Elem (ustr ''a'') [(ustr ''href'', ustr ''https://b.example/2'')] [Text (ustr ''B'')],
         Elem (ustr ''a'') [(ustr ''href'', ustr ''https://c.example/3'')] [Text (ustr ''C'')],
         Text (ustr ''All Sources''),
         Elem (ustr ''a'') [(ustr ''href'', ustr ''https://a.example/'')] [Text (ustr ''a.example'')],
         Elem (ustr ''a'') [(ustr ''href'', ustr ''https://b.example/'')] [Text (ustr ''b.example2'')]]))
   = Inr (Some
       \<lparr>detailed_references =
          [\<lparr>ref_index = 1, ref_domain = netloc (up (ustr ''https://a.example/'')),
            ref_url = ustr ''https://a.example/'', ref_title = ustr ''a.example'',
            ref_description = ustr ''a.example''\<rparr>,
           \<lparr>ref_index = 2, ref_domain = netloc (up (ustr ''https://b.example/2'')),
            ref_url = ustr ''https://b.example/2'', ref_title = ustr ''B'',
            ref_description = ustr ''B''\<rparr>,
           \<lparr>ref_index = 3, ref_domain = netloc (up (ustr ''https://c.example/3'')),
            ref_url = ustr ''https://c.example/3'', ref_title = ustr ''C'',
            ref_description = ustr ''C''\<rparr>,
           \<lparr>ref_index = 4, ref_domain = netloc (up (ustr ''https://a.example/'')),
            ref_url = ustr ''https://a.example/'', ref_title = ustr ''a.example'',
            ref_description = ustr ''a.example''\<rparr>],
        domain_summary =
          [\<lparr>dom_index = 1, dom_domain = ustr ''b.example'',
            dom_href = ustr ''https://b.example/'', dom_count = 2\<rparr>]\<rparr>)"
  by code_simp

end
